theory Spec2Isabelle
  imports Main
begin

unbundle bit_operations_syntax

section \<open>The error channel\<close>

text \<open>
  The interpreter reports failures through an \<^verbatim>\<open>Error\<close> structure that
  \<^verbatim>\<open>_Error_Report2\<close> fills: the \<^verbatim>\<open>internal\<close> flag, the format string and its
  arguments. A function that fails returns \<^verbatim>\<open>NULL\<close> (or 0) with the structure filled;
  the model returns the error as a value instead.

  \<^item> \<open>Reported internal fmt args\<close> is a report made by the code modelled here, with
    the text it passes.
  \<^item> \<open>OOM\<close>, \<open>UnhashableKey\<close>, \<open>IncomparableKey\<close> and \<open>UnresolvedJumpTarget\<close> are
    the kinds the specification names for reports made by collaborators whose source
    is not at hand (the heap, the object dispatch, the executable builder).
  \<^item> \<open>Unreported\<close> is a \<^verbatim>\<open>NULL\<close> returned with the structure left untouched.
  \<^item> \<open>OutOfBounds\<close>, \<open>Uninitialised\<close> and \<open>SignedOverflow\<close> are not reports: they
    mark a run that leaves defined behaviour, by an access outside an allocated array,
    by the use of a cell that was never written since its allocation, or by a shift of
    an \<^verbatim>\<open>int\<close> whose result the type cannot hold.
  \<^item> \<open>AssertionFailure\<close> marks a run that an \<^verbatim>\<open>assert\<close> stops: the assertions are
    taken to be compiled in.
  \<^item> \<open>JumpToReturnedFrame e\<close> marks a run that leaves defined behaviour by a
    \<^verbatim>\<open>longjmp\<close> to the environment of a function that has returned; \<open>e\<close> is what the
    structure holds at the jump.
\<close>

datatype error =
    Reported bool string "int list"
  | OOM
  | UnhashableKey
  | IncomparableKey
  | UnresolvedJumpTarget
  | Unreported
  | OutOfBounds
  | Uninitialised
  | SignedOverflow
  | AssertionFailure
  | JumpToReturnedFrame error

text \<open>
  \<^verbatim>\<open>_Error_Report2(err, ...)\<close> starts with \<^verbatim>\<open>assert(err->occurred == 0)\<close>: a report on
  a structure that already holds one stops the run. The state of the structure is
  \<open>None\<close> while \<^verbatim>\<open>occurred\<close> is 0, and the error it holds afterwards.
\<close>

definition Error_Report :: "error option \<Rightarrow> error \<Rightarrow> error + error option" where
  "Error_Report err e = (case err of None \<Rightarrow> Inr (Some e) | Some held \<Rightarrow> Inl AssertionFailure)"

section \<open>Closures (\<^verbatim>\<open>o_closure.c\<close>)\<close>

text \<open>
  \<^verbatim>\<open>struct ClosureObject { Object base; ClosureObject *prev; Object *vars; }\<close>.
  An \<^verbatim>\<open>Object*\<close> is either a closure (its type is \<^verbatim>\<open>t_closure\<close>) or an object of
  another type, whose content is the parameter \<open>'a\<close>. A \<^verbatim>\<open>NULL\<close> pointer is \<open>None\<close>.
\<close>

datatype 'a Object = IsClosure "'a ClosureObject" | NotClosure 'a
and 'a ClosureObject = ClosureObject (prev: "'a ClosureObject option") (vars: "'a Object")

text \<open>
  \<^verbatim>\<open>Object_NewClosure(parent, new_map, heap, error)\<close>. The first argument of the model
  says whether \<^verbatim>\<open>Heap_Malloc\<close> returned an object; the heap reports its own failure.
\<close>

fun Object_NewClosure :: "bool \<Rightarrow> 'a Object option \<Rightarrow> 'a Object \<Rightarrow> error + 'a ClosureObject" where
  "Object_NewClosure False parent new_map = Inl OOM"
| "Object_NewClosure True None new_map = Inr (ClosureObject None new_map)"
| "Object_NewClosure True (Some (IsClosure p)) new_map = Inr (ClosureObject (Some p) new_map)"
| "Object_NewClosure True (Some (NotClosure x)) new_map =
     Inl (Reported False ''Object is not a closure'' [])"

text \<open>
  The loop of \<^verbatim>\<open>select\<close>:
  \<^verbatim>\<open>while(closure != NULL && selected == NULL) { selected = Object_Select(closure->vars, ...);
  if(err->occurred) return NULL; closure = closure->prev; } return selected;\<close>
  \<^verbatim>\<open>Object_Select\<close> dispatches on the type of \<^verbatim>\<open>vars\<close>; it is the parameter \<open>sel\<close>,
  which returns the object found, \<open>None\<close> for \<^verbatim>\<open>NULL\<close>, or the error it reported.
\<close>

fun closure_walk ::
  "('a Object \<Rightarrow> 'k \<Rightarrow> error + 'a Object option) \<Rightarrow> 'k \<Rightarrow>
   'a ClosureObject option \<Rightarrow> 'a Object option \<Rightarrow> error + 'a Object option" where
  "closure_walk sel key None selected = Inr selected"
| "closure_walk sel key (Some (ClosureObject p v)) selected =
     (if selected \<noteq> None then Inr selected
      else (case sel v key of
              Inl e \<Rightarrow> Inl e
            | Inr s \<Rightarrow> closure_walk sel key p s))"

definition closure_select ::
  "('a Object \<Rightarrow> 'k \<Rightarrow> error + 'a Object option) \<Rightarrow> 'a ClosureObject \<Rightarrow> 'k \<Rightarrow>
   error + 'a Object option" where
  "closure_select sel self key = closure_walk sel key (Some self) None"

text \<open>The scopes of a closure, innermost first.\<close>

fun scopes :: "'a ClosureObject \<Rightarrow> 'a Object list" where
  "scopes (ClosureObject None v) = [v]"
| "scopes (ClosureObject (Some p) v) = v # scopes p"

section \<open>Maps\<close>

text \<open>
  \<^verbatim>\<open>typedef struct { Object base; int mapper_size, count; int *mapper; Object **keys;
  Object **vals; } MapObject;\<close>

  An array that \<^verbatim>\<open>Heap_RawMalloc\<close> returned is the list of its cells, as many as were
  asked for; a cell is \<open>None\<close> until it is written. An access outside the list is
  \<open>OutOfBounds\<close>, and the use of a cell that was never written is \<open>Uninitialised\<close>:
  C leaves both undefined. Objects (keys and values) are of the type \<open>'o\<close>.

  C's \<^verbatim>\<open>int\<close> has 32 bits and is \<open>int\<close> here: \<^verbatim>\<open>x >> 5\<close> is \<open>drop_bit 5 x\<close> (the
  arithmetic shift) and \<^verbatim>\<open>x & mask\<close> is \<open>x AND mask\<close>. \<^verbatim>\<open>mapper_size << 1\<close> is
  \<open>mapper_size * 2\<close> when \<^verbatim>\<open>int\<close> can hold the result, and \<open>SignedOverflow\<close> otherwise.
  The probe index \<^verbatim>\<open>(i * 5 + pert + 1) & mask\<close> is computed without a bound: no
  overflow occurs there while the mapper has at most \<open>2 ^ 28\<close> slots, and beyond, the
  masked value is the one that a machine computes by wrapping around.
\<close>

definition INT_MAX :: int where
  "INT_MAX = 2147483647"

record 'o MapObject =
  mapper_size :: int
  count :: int
  mapper :: "int option list"
  keys :: "'o option list"
  vals :: "'o option list"

text \<open>
  \<^verbatim>\<open>Object_Hash\<close>, \<^verbatim>\<open>Object_Compare\<close> and \<^verbatim>\<open>Object_Copy\<close> dispatch on the type of the
  object; their source is not at hand, so they are parameters. Each returns its result
  or the error it reported.
\<close>

record 'o capabilities =
  Object_Hash :: "'o \<Rightarrow> error + int"
  Object_Compare :: "'o \<Rightarrow> 'o \<Rightarrow> error + bool"
  Object_Copy :: "'o \<Rightarrow> error + 'o"

text \<open>
  Modelled from the spec: the source of the heap is not at hand. \<open>granted\<close> says
  whether \<^verbatim>\<open>Heap_RawMalloc(heap, size, error)\<close> returns an array. A call that fails
  reports \<open>OOM\<close> on the structure it is given and returns \<^verbatim>\<open>NULL\<close>; the report is
  subject to the assertion of \<open>Error_Report\<close>. The result is whether an array was
  returned, and the state of the structure.
\<close>

definition Heap_RawMalloc :: "bool \<Rightarrow> error option \<Rightarrow> error + (bool \<times> error option)" where
  "Heap_RawMalloc granted err =
     (if granted then Inr (True, err)
      else (case Error_Report err OOM of
              Inl stop \<Rightarrow> Inl stop
            | Inr err' \<Rightarrow> Inr (False, err')))"

text \<open>What a function that returns \<^verbatim>\<open>NULL\<close> leaves in the structure.\<close>

definition held_error :: "error option \<Rightarrow> error" where
  "held_error err = (case err of None \<Rightarrow> Unreported | Some e \<Rightarrow> e)"

definition new_array :: "int \<Rightarrow> 'a option list" where
  "new_array n = replicate (nat n) None"

definition load :: "'a option list \<Rightarrow> int \<Rightarrow> error + 'a" where
  "load a i =
     (if 0 \<le> i \<and> i < int (length a)
      then (case a ! nat i of None \<Rightarrow> Inl Uninitialised | Some x \<Rightarrow> Inr x)
      else Inl OutOfBounds)"

definition store :: "'a option list \<Rightarrow> int \<Rightarrow> 'a \<Rightarrow> error + 'a option list" where
  "store a i x =
     (if 0 \<le> i \<and> i < int (length a) then Inr (a[nat i := Some x]) else Inl OutOfBounds)"

text \<open>
  \<^verbatim>\<open>return mapper_size * 2.0 / 3.0;\<close> The conversion of the quotient to \<^verbatim>\<open>int\<close>
  truncates towards zero. The quotient of the doubles is the exact quotient rounded,
  which is an integer or at least a third away from one: the rounding does not change
  the integer part.
\<close>

definition calc_capacity :: "int \<Rightarrow> int" where
  "calc_capacity msize =
     (if 0 \<le> msize then (msize * 2) div 3 else - ((- msize * 2) div 3))"

text \<open>
  \<^verbatim>\<open>mapper_size = 8; while(calc_capacity(mapper_size) < num) mapper_size <<= 1;\<close>
  The result is \<open>None\<close> when the loop does not end.
\<close>

partial_function (option) NewMap_size :: "int \<Rightarrow> int \<Rightarrow> (error + int) option" where
  "NewMap_size msize num =
     (if calc_capacity msize < num
      then (if msize < 0 \<or> INT_MAX < msize * 2 then Some (Inl SignedOverflow)
            else NewMap_size (msize * 2) num)
      else Some (Inr msize))"

declare NewMap_size.simps [code]

text \<open>\<^verbatim>\<open>for(int i = 0; i < mapper_size; i += 1) mapper[i] = -1;\<close>\<close>

function fill_mapper :: "int \<Rightarrow> int \<Rightarrow> int option list \<Rightarrow> error + int option list" where
  "fill_mapper i n a =
     (if i < n
      then (case store a i (- 1) of
              Inl e \<Rightarrow> Inl e
            | Inr a' \<Rightarrow> fill_mapper (i + 1) n a')
      else Inr a)"
  by pat_completeness auto
termination
  by (relation "measure (\<lambda>(i, n, a). nat (n - i))") auto

declare fill_mapper.simps [simp del]

text \<open>
  \<^verbatim>\<open>Object_NewMap(num, heap, error)\<close>. \<open>obj_ok\<close> says whether \<^verbatim>\<open>Heap_Malloc\<close> returned
  the object, and \<open>raw_ok\<close> whether each of the three calls of \<^verbatim>\<open>Heap_RawMalloc\<close>
  (for \<^verbatim>\<open>mapper\<close>, \<^verbatim>\<open>keys\<close>, \<^verbatim>\<open>vals\<close>) is granted. All three arrays are asked
  for with \<^verbatim>\<open>capacity\<close> cells, in three calls on the same structure, and the three
  pointers are tested afterwards. The structure is clear at the call. The result is
  \<open>None\<close> when the loop that sizes the mapper does not end.
\<close>

definition Object_NewMap ::
  "int \<Rightarrow> bool \<Rightarrow> bool \<times> bool \<times> bool \<Rightarrow> (error + 'o MapObject) option" where
  "Object_NewMap num0 obj_ok raw_ok =
     (let num = (if num0 < 0 then 0 else num0) in
      case NewMap_size 8 num of
        None \<Rightarrow> None
      | Some (Inl e) \<Rightarrow> Some (Inl e)
      | Some (Inr msize) \<Rightarrow>
          (let capacity = calc_capacity msize in
           if \<not> obj_ok then Some (Inl OOM)
           else (case raw_ok of (mapper_ok, keys_ok, vals_ok) \<Rightarrow>
     (case Heap_RawMalloc mapper_ok None of
        Inl stop \<Rightarrow> Some (Inl stop)
      | Inr (mapper_got, err1) \<Rightarrow>
     (case Heap_RawMalloc keys_ok err1 of
        Inl stop \<Rightarrow> Some (Inl stop)
      | Inr (keys_got, err2) \<Rightarrow>
     (case Heap_RawMalloc vals_ok err2 of
        Inl stop \<Rightarrow> Some (Inl stop)
      | Inr (vals_got, err3) \<Rightarrow>
          if \<not> (mapper_got \<and> keys_got \<and> vals_got) then Some (Inl (held_error err3))
          else (case fill_mapper 0 msize (new_array capacity) of
                  Inl e \<Rightarrow> Some (Inl e)
                | Inr mp \<Rightarrow>
                    Some (Inr \<lparr>mapper_size = msize, count = 0, mapper = mp,
                               keys = new_array capacity, vals = new_array capacity\<rparr>))))))))"

text \<open>
  The probe loop of \<^verbatim>\<open>select\<close>. The key is compared with \<^verbatim>\<open>map->keys[i]\<close> and the
  value returned is \<^verbatim>\<open>map->vals[i]\<close>, where \<^verbatim>\<open>i\<close> is the slot of the mapper;
  \<^verbatim>\<open>k = map->mapper[i]\<close> is only tested. The result is \<open>None\<close> when the loop does
  not end.
\<close>

partial_function (option) select_loop ::
  "'o capabilities \<Rightarrow> 'o MapObject \<Rightarrow> 'o \<Rightarrow> int \<Rightarrow> int \<Rightarrow> int \<Rightarrow> (error + 'o option) option" where
  "select_loop caps m key msk i pert =
     (case load (mapper m) i of
        Inl e \<Rightarrow> Some (Inl e)
      | Inr k \<Rightarrow>
          if k = - 1 then Some (Inr None)
          else if \<not> 0 \<le> k then Some (Inl AssertionFailure)
          else (case load (keys m) i of
                  Inl e \<Rightarrow> Some (Inl e)
                | Inr stored \<Rightarrow>
                    (case Object_Compare caps key stored of
                       Inl e \<Rightarrow> Some (Inl e)
                     | Inr equal \<Rightarrow>
                         if equal
                         then (case load (vals m) i of
                                 Inl e \<Rightarrow> Some (Inl e)
                               | Inr v \<Rightarrow> Some (Inr (Some v)))
                         else select_loop caps m key msk
                                ((i * 5 + drop_bit 5 pert + 1) AND msk) (drop_bit 5 pert))))"

declare select_loop.simps [code]

definition map_select ::
  "'o capabilities \<Rightarrow> 'o MapObject \<Rightarrow> 'o \<Rightarrow> (error + 'o option) option" where
  "map_select caps m key =
     (let msk = mapper_size m - 1 in
      case Object_Hash caps key of
        Inl e \<Rightarrow> Some (Inl e)
      | Inr hash \<Rightarrow> select_loop caps m key msk (hash AND msk) hash)"

text \<open>
  \<^verbatim>\<open>grow\<close>: the loop that copies the entries,
  \<^verbatim>\<open>for(i = 0; i < map->count; i += 1) { keys[i] = map->keys[i]; vals[i] = map->vals[i]; }\<close>
\<close>

function copy_entries ::
  "int \<Rightarrow> 'o MapObject \<Rightarrow> 'o option list \<Rightarrow> 'o option list \<Rightarrow>
   error + ('o option list \<times> 'o option list)" where
  "copy_entries i m ks vs =
     (if i < count m
      then (case load (keys m) i of
              Inl e \<Rightarrow> Inl e
            | Inr k \<Rightarrow>
                (case store ks i k of
                   Inl e \<Rightarrow> Inl e
                 | Inr ks' \<Rightarrow>
                     (case load (vals m) i of
                        Inl e \<Rightarrow> Inl e
                      | Inr v \<Rightarrow>
                          (case store vs i v of
                             Inl e \<Rightarrow> Inl e
                           | Inr vs' \<Rightarrow> copy_entries (i + 1) m ks' vs'))))
      else Inr (ks, vs))"
  by pat_completeness auto
termination
  by (relation "measure (\<lambda>(i, m, ks, vs). nat (count m - i))") auto

declare copy_entries.simps [simp del]

text \<open>
  The inner loop of the rehash: entry \<^verbatim>\<open>i\<close> takes the first empty slot on its
  probe sequence.
\<close>

partial_function (option) grow_probe ::
  "int option list \<Rightarrow> int \<Rightarrow> int \<Rightarrow> int \<Rightarrow> int \<Rightarrow> (error + int option list) option" where
  "grow_probe mp msk i j pert =
     (case load mp j of
        Inl e \<Rightarrow> Some (Inl e)
      | Inr k \<Rightarrow>
          if k = - 1 then Some (store mp j i)
          else grow_probe mp msk i ((j * 5 + drop_bit 5 pert + 1) AND msk) (drop_bit 5 pert))"

declare grow_probe.simps [code]

text \<open>
  The outer loop of the rehash, over the entries. \<^verbatim>\<open>assert(error->occurred == 0)\<close>
  follows the call of \<^verbatim>\<open>Object_Hash\<close>.
\<close>

function rehash ::
  "'o capabilities \<Rightarrow> int \<Rightarrow> int \<Rightarrow> int \<Rightarrow> 'o option list \<Rightarrow> int option list \<Rightarrow>
   (error + int option list) option" where
  "rehash caps i n new_mapper_size ks mp =
     (if i < n
      then (case load ks i of
              Inl e \<Rightarrow> Some (Inl e)
            | Inr key \<Rightarrow>
                (case Object_Hash caps key of
                   Inl e \<Rightarrow> Some (Inl AssertionFailure)
                 | Inr hash \<Rightarrow>
                     (let msk = new_mapper_size - 1 in
                      case grow_probe mp msk i (hash AND msk) hash of
                        None \<Rightarrow> None
                      | Some (Inl e) \<Rightarrow> Some (Inl e)
                      | Some (Inr mp') \<Rightarrow> rehash caps (i + 1) n new_mapper_size ks mp')))
      else Some (Inr mp))"
  by pat_completeness auto
termination
  by (relation "measure (\<lambda>(caps, i, n, new_mapper_size, ks, mp). nat (n - i))") auto

declare rehash.simps [simp del]

text \<open>
  \<^verbatim>\<open>grow(map, heap, error)\<close>. \<open>raw_ok\<close> says whether each of the three calls of
  \<^verbatim>\<open>Heap_RawMalloc\<close> is granted. The three calls are made one after the other on the
  same structure, which is clear at the call, and the three pointers are tested
  afterwards. The map is written only at the end. The result is the status and the map
  as the call leaves it.
\<close>

definition grow ::
  "'o capabilities \<Rightarrow> bool \<times> bool \<times> bool \<Rightarrow> 'o MapObject \<Rightarrow>
   ((error + unit) \<times> 'o MapObject) option" where
  "grow caps raw_ok m =
     (if mapper_size m < 0 \<or> INT_MAX < mapper_size m * 2 then Some (Inl SignedOverflow, m)
      else
     (let new_mapper_size = mapper_size m * 2;
          new_capacity = calc_capacity new_mapper_size
      in case raw_ok of (mapper_ok, keys_ok, vals_ok) \<Rightarrow>
     (case Heap_RawMalloc mapper_ok None of
        Inl stop \<Rightarrow> Some (Inl stop, m)
      | Inr (mapper_got, err1) \<Rightarrow>
     (case Heap_RawMalloc keys_ok err1 of
        Inl stop \<Rightarrow> Some (Inl stop, m)
      | Inr (keys_got, err2) \<Rightarrow>
     (case Heap_RawMalloc vals_ok err2 of
        Inl stop \<Rightarrow> Some (Inl stop, m)
      | Inr (vals_got, err3) \<Rightarrow>
          if \<not> (mapper_got \<and> keys_got \<and> vals_got) then Some (Inl (held_error err3), m)
          else (case copy_entries 0 m (new_array new_capacity) (new_array new_capacity) of
                  Inl e \<Rightarrow> Some (Inl e, m)
                | Inr (ks, vs) \<Rightarrow>
                    (case fill_mapper 0 new_mapper_size (new_array new_mapper_size) of
                       Inl e \<Rightarrow> Some (Inl e, m)
                     | Inr mp \<Rightarrow>
                         (case rehash caps 0 (count m) new_mapper_size ks mp of
                            None \<Rightarrow> None
                          | Some (Inl e) \<Rightarrow> Some (Inl e, m)
                          | Some (Inr mp') \<Rightarrow>
                              Some (Inr (), m\<lparr>mapper := mp', mapper_size := new_mapper_size,
                                                 keys := ks, vals := vs\<rparr>)))))))))"

text \<open>
  The probe loop of \<^verbatim>\<open>insert\<close>. As in \<^verbatim>\<open>select\<close>, an occupied slot \<^verbatim>\<open>i\<close> is
  compared through \<^verbatim>\<open>map->keys[i]\<close>, and a key found equal has \<^verbatim>\<open>map->vals[i]\<close>
  overwritten.
\<close>

partial_function (option) insert_loop ::
  "'o capabilities \<Rightarrow> 'o MapObject \<Rightarrow> 'o \<Rightarrow> 'o \<Rightarrow> int \<Rightarrow> int \<Rightarrow> int \<Rightarrow>
   ((error + unit) \<times> 'o MapObject) option" where
  "insert_loop caps m key val msk i pert =
     (case load (mapper m) i of
        Inl e \<Rightarrow> Some (Inl e, m)
      | Inr k \<Rightarrow>
          if k = - 1
          then (case Object_Copy caps key of
                  Inl e \<Rightarrow> Some (Inl e, m)
                | Inr key_copy \<Rightarrow>
                    (case store (mapper m) i (count m) of
                       Inl e \<Rightarrow> Some (Inl e, m)
                     | Inr mp \<Rightarrow>
                         (case store (keys m) (count m) key_copy of
                            Inl e \<Rightarrow> Some (Inl e, m\<lparr>mapper := mp\<rparr>)
                          | Inr ks \<Rightarrow>
                              (case store (vals m) (count m) val of
                                 Inl e \<Rightarrow> Some (Inl e, m\<lparr>mapper := mp, keys := ks\<rparr>)
                               | Inr vs \<Rightarrow>
                                   Some (Inr (), m\<lparr>mapper := mp, keys := ks, vals := vs,
                                                      count := count m + 1\<rparr>)))))
          else if \<not> 0 \<le> k then Some (Inl AssertionFailure, m)
          else (case load (keys m) i of
                  Inl e \<Rightarrow> Some (Inl e, m)
                | Inr stored \<Rightarrow>
                    (case Object_Compare caps key stored of
                       Inl e \<Rightarrow> Some (Inl e, m)
                     | Inr equal \<Rightarrow>
                         if equal
                         then (case store (vals m) i val of
                                 Inl e \<Rightarrow> Some (Inl e, m)
                               | Inr vs \<Rightarrow> Some (Inr (), m\<lparr>vals := vs\<rparr>))
                         else insert_loop caps m key val msk
                                ((i * 5 + drop_bit 5 pert + 1) AND msk) (drop_bit 5 pert))))"

declare insert_loop.simps [code]

text \<open>\<^verbatim>\<open>insert(self, key, val, heap, error)\<close>: grow when full, hash, probe.\<close>

definition map_insert ::
  "'o capabilities \<Rightarrow> bool \<times> bool \<times> bool \<Rightarrow> 'o MapObject \<Rightarrow> 'o \<Rightarrow> 'o \<Rightarrow>
   ((error + unit) \<times> 'o MapObject) option" where
  "map_insert caps raw_ok m key val =
     (case (if count m = calc_capacity (mapper_size m) then grow caps raw_ok m
            else Some (Inr (), m)) of
        None \<Rightarrow> None
      | Some (Inl e, map') \<Rightarrow> Some (Inl e, map')
      | Some (Inr u, map') \<Rightarrow>
          (let msk = mapper_size map' - 1 in
           case Object_Hash caps key of
             Inl e \<Rightarrow> Some (Inl e, map')
           | Inr hash \<Rightarrow> insert_loop caps map' key val msk (hash AND msk) hash))"

text \<open>
  The invariant of a map, as the specification states it: the size of the mapper is a
  power of two, the mapper has that many slots, \<^verbatim>\<open>keys\<close> and \<^verbatim>\<open>vals\<close> have \<^verbatim>\<open>capacity\<close>
  cells, the count is at most the capacity, and every slot of the mapper holds \<open>-1\<close> or
  the index of an entry.
\<close>

definition slot_ok :: "int \<Rightarrow> int option \<Rightarrow> bool" where
  "slot_ok c s = (case s of None \<Rightarrow> False | Some k \<Rightarrow> k = - 1 \<or> (0 \<le> k \<and> k < c))"

definition map_invariant :: "'o MapObject \<Rightarrow> bool" where
  "map_invariant m \<longleftrightarrow>
     (\<exists>n. mapper_size m = 2 ^ n)
     \<and> length (mapper m) = nat (mapper_size m)
     \<and> length (keys m) = nat (calc_capacity (mapper_size m))
     \<and> length (vals m) = nat (calc_capacity (mapper_size m))
     \<and> 0 \<le> count m \<and> count m \<le> calc_capacity (mapper_size m)
     \<and> list_all (slot_ok (count m)) (mapper m)"

section \<open>The code generator\<close>

subsection \<open>The syntax tree\<close>

text \<open>
  The declarations of the nodes (\<^verbatim>\<open>ASTi.h\<close>) are not at hand; the datatype has one
  constructor for each kind of node that \<^verbatim>\<open>emitInstrForNode\<close> tells apart, with the
  fields the code reads. Every node starts with its \<^verbatim>\<open>offset\<close> and \<^verbatim>\<open>length\<close>. A list of
  nodes linked through \<^verbatim>\<open>next\<close> is a list, and a pointer that may be \<^verbatim>\<open>NULL\<close> is an
  option. \<open>ExprKind\<close> holds the kinds that \<^verbatim>\<open>exprkind_to_opcode\<close> translates; the
  other kinds of expression have constructors of their own. A \<^verbatim>\<open>double\<close> is its
  64 bits as a number: the generator carries it unchanged from a literal to its
  instruction.
\<close>

datatype double = DoubleBits nat

datatype ExprKind =
    EXPR_NOT | EXPR_POS | EXPR_NEG
  | EXPR_ADD | EXPR_SUB | EXPR_MUL | EXPR_DIV
  | EXPR_EQL | EXPR_NQL | EXPR_LSS | EXPR_LEQ | EXPR_GRT | EXPR_GEQ
  | EXPR_AND | EXPR_OR

datatype Node =
    OperExpr int int ExprKind "Node list"
  | PairExpr int int Node Node
  | AssExpr int int Node Node
  | IntExpr int int int
  | FloatExpr int int double
  | StringExpr int int string
  | IdentExpr int int string
  | ListExpr int int "Node list" int
  | MapExpr int int "Node list" "Node list" int
  | CallExpr int int Node "Node list" int
  | SelectExpr int int Node Node
  | NoneExpr int int
  | TrueExpr int int
  | FalseExpr int int
  | BreakNode int int
  | IfElseNode int int Node Node "Node option"
  | WhileNode int int Node Node
  | DoWhileNode int int Node Node
  | CompNode int int "Node list"
  | ReturnNode int int Node
  | FuncNode int int string "(string \<times> int \<times> int) list" int Node

text \<open>
  The fields after the span are: the operands of an operator; the two sides of a pair
  and of an assignment (\<^verbatim>\<open>head\<close> and \<^verbatim>\<open>head->next\<close>); the value of a literal and the
  name of an identifier; \<^verbatim>\<open>items\<close> and \<^verbatim>\<open>itemc\<close> of a list; \<^verbatim>\<open>keys\<close>, \<^verbatim>\<open>items\<close> and
  \<^verbatim>\<open>itemc\<close> of a map; \<^verbatim>\<open>func\<close>, \<^verbatim>\<open>argv\<close> and \<^verbatim>\<open>argc\<close> of a call; \<^verbatim>\<open>set\<close> and \<^verbatim>\<open>idx\<close>
  of a selection; \<^verbatim>\<open>condition\<close>, \<^verbatim>\<open>true_branch\<close> and \<^verbatim>\<open>false_branch\<close>; \<^verbatim>\<open>condition\<close>
  and \<^verbatim>\<open>body\<close> of a while; \<^verbatim>\<open>body\<close> and \<^verbatim>\<open>condition\<close> of a do-while; the statements
  of a compound; the value of a return; \<^verbatim>\<open>name\<close>, \<^verbatim>\<open>argv\<close> (each argument with its
  name and span), \<^verbatim>\<open>argc\<close> and \<^verbatim>\<open>body\<close> of a function.
\<close>

fun node_offset :: "Node \<Rightarrow> int" where
  "node_offset (OperExpr off len k ns) = off"
| "node_offset (PairExpr off len l r) = off"
| "node_offset (AssExpr off len l r) = off"
| "node_offset (IntExpr off len v) = off"
| "node_offset (FloatExpr off len v) = off"
| "node_offset (StringExpr off len v) = off"
| "node_offset (IdentExpr off len v) = off"
| "node_offset (ListExpr off len items itemc) = off"
| "node_offset (MapExpr off len ks items itemc) = off"
| "node_offset (CallExpr off len func argv argc) = off"
| "node_offset (SelectExpr off len set' idx) = off"
| "node_offset (NoneExpr off len) = off"
| "node_offset (TrueExpr off len) = off"
| "node_offset (FalseExpr off len) = off"
| "node_offset (BreakNode off len) = off"
| "node_offset (IfElseNode off len c t f) = off"
| "node_offset (WhileNode off len c b) = off"
| "node_offset (DoWhileNode off len b c) = off"
| "node_offset (CompNode off len stmts) = off"
| "node_offset (ReturnNode off len v) = off"
| "node_offset (FuncNode off len name argv argc body) = off"

fun node_length :: "Node \<Rightarrow> int" where
  "node_length (OperExpr off len k ns) = len"
| "node_length (PairExpr off len l r) = len"
| "node_length (AssExpr off len l r) = len"
| "node_length (IntExpr off len v) = len"
| "node_length (FloatExpr off len v) = len"
| "node_length (StringExpr off len v) = len"
| "node_length (IdentExpr off len v) = len"
| "node_length (ListExpr off len items itemc) = len"
| "node_length (MapExpr off len ks items itemc) = len"
| "node_length (CallExpr off len func argv argc) = len"
| "node_length (SelectExpr off len set' idx) = len"
| "node_length (NoneExpr off len) = len"
| "node_length (TrueExpr off len) = len"
| "node_length (FalseExpr off len) = len"
| "node_length (BreakNode off len) = len"
| "node_length (IfElseNode off len c t f) = len"
| "node_length (WhileNode off len c b) = len"
| "node_length (DoWhileNode off len b c) = len"
| "node_length (CompNode off len stmts) = len"
| "node_length (ReturnNode off len v) = len"
| "node_length (FuncNode off len name argv argc body) = len"

text \<open>\<^verbatim>\<open>node->kind == NODE_EXPR\<close>\<close>

fun is_NODE_EXPR :: "Node \<Rightarrow> bool" where
  "is_NODE_EXPR (BreakNode off len) = False"
| "is_NODE_EXPR (IfElseNode off len c t f) = False"
| "is_NODE_EXPR (WhileNode off len c b) = False"
| "is_NODE_EXPR (DoWhileNode off len b c) = False"
| "is_NODE_EXPR (CompNode off len stmts) = False"
| "is_NODE_EXPR (ReturnNode off len v) = False"
| "is_NODE_EXPR (FuncNode off len name argv argc body) = False"
| "is_NODE_EXPR n = True"

record AST =
  root :: Node
  src :: string

subsection \<open>Instructions, promises and the builder\<close>

datatype Opcode =
    OPCODE_NOT | OPCODE_POS | OPCODE_NEG
  | OPCODE_ADD | OPCODE_SUB | OPCODE_MUL | OPCODE_DIV
  | OPCODE_EQL | OPCODE_NQL | OPCODE_LSS | OPCODE_LEQ | OPCODE_GRT | OPCODE_GEQ
  | OPCODE_AND | OPCODE_OR
  | OPCODE_ASS | OPCODE_POP | OPCODE_CALL
  | OPCODE_SELECT | OPCODE_INSERT | OPCODE_INSERT2
  | OPCODE_PUSHINT | OPCODE_PUSHFLT | OPCODE_PUSHSTR | OPCODE_PUSHVAR
  | OPCODE_PUSHNNE | OPCODE_PUSHTRU | OPCODE_PUSHFLS
  | OPCODE_PUSHLST | OPCODE_PUSHMAP | OPCODE_PUSHFUN
  | OPCODE_RETURN | OPCODE_JUMP | OPCODE_JUMPIFNOTANDPOP | OPCODE_JUMPIFANDPOP

datatype Operand =
    OPTP_INT int
  | OPTP_FLOAT double
  | OPTP_STRING string
  | OPTP_PROMISE nat

text \<open>An instruction: the opcode, the operands, and the span of the node it comes from.\<close>

datatype Instr = Instr Opcode "Operand list" int int

text \<open>
  Modelled from the spec: the sources of \<^verbatim>\<open>ExeBuilder\<close>, \<^verbatim>\<open>Promise\<close> and \<^verbatim>\<open>BPAlloc\<close>
  are not at hand. The builder holds the instructions appended so far. A promise is a
  write-once cell for the index of an instruction: the context holds the payloads,
  \<open>None\<close> while unresolved, and a promise is its position among them.
  \<^verbatim>\<open>Promise_Free\<close> drops a reference and leaves the payload to the instructions that
  hold the promise. \<open>room\<close> is the number of further requests the allocator
  grants: appending an instruction, creating a promise and the requests of
  \<^verbatim>\<open>compile\<close> itself take one each, so that any of them can be the one that fails.
\<close>

record CodegenContext =
  code :: "Instr list"
  promises :: "int option list"
  room :: nat

definition ExeBuilder_InstrCount :: "CodegenContext \<Rightarrow> int" where
  "ExeBuilder_InstrCount ctx = int (length (code ctx))"

definition Promise_Resolve :: "nat \<Rightarrow> int \<Rightarrow> CodegenContext \<Rightarrow> CodegenContext" where
  "Promise_Resolve p v ctx = ctx\<lparr>promises := (promises ctx)[p := Some v]\<rparr>"

text \<open>\<^verbatim>\<open>if(!ExeBuilder_Append(...)) okNowJump(ctx);\<close>\<close>

definition emitInstr ::
  "CodegenContext \<Rightarrow> Opcode \<Rightarrow> Operand list \<Rightarrow> int \<Rightarrow> int \<Rightarrow> error + CodegenContext" where
  "emitInstr ctx opcode opv off len =
     (if room ctx = 0 then Inl OOM
      else Inr (ctx\<lparr>code := code ctx @ [Instr opcode opv off len], room := room ctx - 1\<rparr>))"

definition emitInstr_POP :: "CodegenContext \<Rightarrow> int \<Rightarrow> int \<Rightarrow> int \<Rightarrow> error + CodegenContext" where
  "emitInstr_POP ctx op0 off len = emitInstr ctx OPCODE_POP [OPTP_INT op0] off len"

definition emitInstr_POP1 :: "CodegenContext \<Rightarrow> int \<Rightarrow> int \<Rightarrow> error + CodegenContext" where
  "emitInstr_POP1 ctx off len = emitInstr_POP ctx 1 off len"

definition emitInstr_ASS :: "CodegenContext \<Rightarrow> string \<Rightarrow> int \<Rightarrow> int \<Rightarrow> error + CodegenContext" where
  "emitInstr_ASS ctx name off len = emitInstr ctx OPCODE_ASS [OPTP_STRING name] off len"

text \<open>\<^verbatim>\<open>Promise_New\<close>, or the report \<^verbatim>\<open>reportErrorAndJump(ctx, 1, "No memory")\<close>.\<close>

definition newOffsetPromise :: "CodegenContext \<Rightarrow> error + (nat \<times> CodegenContext)" where
  "newOffsetPromise ctx =
     (if room ctx = 0 then Inl (Reported True ''No memory'' [])
      else Inr (length (promises ctx),
                ctx\<lparr>promises := promises ctx @ [None], room := room ctx - 1\<rparr>))"

fun exprkind_to_opcode :: "ExprKind \<Rightarrow> Opcode" where
  "exprkind_to_opcode EXPR_NOT = OPCODE_NOT"
| "exprkind_to_opcode EXPR_POS = OPCODE_POS"
| "exprkind_to_opcode EXPR_NEG = OPCODE_NEG"
| "exprkind_to_opcode EXPR_ADD = OPCODE_ADD"
| "exprkind_to_opcode EXPR_SUB = OPCODE_SUB"
| "exprkind_to_opcode EXPR_MUL = OPCODE_MUL"
| "exprkind_to_opcode EXPR_DIV = OPCODE_DIV"
| "exprkind_to_opcode EXPR_EQL = OPCODE_EQL"
| "exprkind_to_opcode EXPR_NQL = OPCODE_NQL"
| "exprkind_to_opcode EXPR_LSS = OPCODE_LSS"
| "exprkind_to_opcode EXPR_LEQ = OPCODE_LEQ"
| "exprkind_to_opcode EXPR_GRT = OPCODE_GRT"
| "exprkind_to_opcode EXPR_GEQ = OPCODE_GEQ"
| "exprkind_to_opcode EXPR_AND = OPCODE_AND"
| "exprkind_to_opcode EXPR_OR = OPCODE_OR"

text \<open>
  \<^verbatim>\<open>flattenTupleTree(ctx, root, tuple, max, count)\<close>: the buffer \<^verbatim>\<open>tuple\<close> with its
  \<^verbatim>\<open>count\<close> is the list of the items stored so far.
\<close>

fun flattenTupleTree :: "Node \<Rightarrow> Node list \<Rightarrow> nat \<Rightarrow> error + Node list" where
  "flattenTupleTree (PairExpr off len l r) tuple max_count =
     (case flattenTupleTree l tuple max_count of
        Inl e \<Rightarrow> Inl e
      | Inr tuple' \<Rightarrow> flattenTupleTree r tuple' max_count)"
| "flattenTupleTree node tuple max_count =
     (if max_count = length tuple
      then Inl (Reported False ''Static buffer is too small'' [])
      else Inr (tuple @ [node]))"

subsection \<open>The tree walk\<close>

text \<open>
  The items that \<^verbatim>\<open>flattenTupleTree\<close> stores are parts of the tree it is given; the
  walk below recurses into them, and ends for that reason.
\<close>

lemma flattenTupleTree_size_gen:
  "flattenTupleTree n t m = Inr t' \<Longrightarrow> size_list size t' \<le> size_list size t + size n + 1"
  by (induction n t m arbitrary: t' rule: flattenTupleTree.induct)
     (auto split: sum.splits if_splits, fastforce)

lemma flattenTupleTree_size:
  "flattenTupleTree n [] m = Inr t' \<Longrightarrow> size_list size t' \<le> size n + 1"
  using flattenTupleTree_size_gen [of n "[]" m t'] by simp

lemma size_list_rev: "size_list f (rev xs) = size_list f xs"
  by (induction xs) auto

text \<open>
  The loop over the arguments of a function:
  \<^verbatim>\<open>while(arg) { emitInstr_ASS(ctx, arg->name, ...); emitInstr_POP1(ctx, ...); arg = arg->base.next; }\<close>
\<close>

fun emitArguments :: "CodegenContext \<Rightarrow> (string \<times> int \<times> int) list \<Rightarrow> error + CodegenContext" where
  "emitArguments ctx [] = Inr ctx"
| "emitArguments ctx ((name, off, len) # args) =
     (case emitInstr_ASS ctx name off len of
        Inl e \<Rightarrow> Inl e
      | Inr ctx1 \<Rightarrow>
          (case emitInstr_POP1 ctx1 off len of
             Inl e \<Rightarrow> Inl e
           | Inr ctx2 \<Rightarrow> emitArguments ctx2 args))"

text \<open>
  \<^verbatim>\<open>emitInstrForNode(ctx, node, break_dest)\<close> and the functions it calls. A report
  (\<^verbatim>\<open>reportErrorAndJump\<close>) and a failed append (\<^verbatim>\<open>okNowJump\<close>) leave the walk through
  \<^verbatim>\<open>longjmp\<close>: the walk ends there, and its result \<open>Inl e\<close> is the error that the
  structure holds when \<^verbatim>\<open>longjmp\<close> is called. Where the jump leads is the matter of
  \<^verbatim>\<open>compile\<close>. \<open>break_dest\<close> is the promise of the end of the innermost loop,
  \<open>None\<close> for \<^verbatim>\<open>NULL\<close>.

  The loops of the source are the functions over lists: \<open>emitNodes\<close> (the operands of
  an operator, the arguments of a call, the values of a return), \<open>emitListItems\<close>,
  \<open>emitMapItems\<close>, \<open>emitStatements\<close> (a compound) and \<open>emitAssignments\<close>, the loop
  of \<^verbatim>\<open>emitInstrForAssignmentNode\<close> over \<^verbatim>\<open>tuple[count-i-1]\<close>, which receives the
  items in that order; \<^verbatim>\<open>i+1 < count\<close> holds when items remain. A function that takes
  a node of one kind receives the fields of the node.
\<close>

function
  emitInstrForNode :: "CodegenContext \<Rightarrow> Node \<Rightarrow> nat option \<Rightarrow> error + CodegenContext" and
  emitNodes :: "CodegenContext \<Rightarrow> Node list \<Rightarrow> nat option \<Rightarrow> error + CodegenContext" and
  emitListItems :: "CodegenContext \<Rightarrow> Node list \<Rightarrow> int \<Rightarrow> nat option \<Rightarrow> error + CodegenContext" and
  emitMapItems :: "CodegenContext \<Rightarrow> Node list \<Rightarrow> Node list \<Rightarrow> nat option \<Rightarrow> error + CodegenContext" and
  emitStatements :: "CodegenContext \<Rightarrow> Node list \<Rightarrow> nat option \<Rightarrow> error + CodegenContext" and
  emitAssignments :: "CodegenContext \<Rightarrow> Node list \<Rightarrow> int \<Rightarrow> nat option \<Rightarrow> error + CodegenContext" and
  emitInstrForFuncCallNode ::
    "CodegenContext \<Rightarrow> int \<Rightarrow> int \<Rightarrow> Node \<Rightarrow> Node list \<Rightarrow> int \<Rightarrow> nat option \<Rightarrow> int \<Rightarrow>
     error + CodegenContext" and
  emitInstrForAssignmentNode ::
    "CodegenContext \<Rightarrow> int \<Rightarrow> Node \<Rightarrow> Node \<Rightarrow> nat option \<Rightarrow> error + CodegenContext" and
  emitInstrForIfElseNode ::
    "CodegenContext \<Rightarrow> int \<Rightarrow> int \<Rightarrow> Node \<Rightarrow> Node \<Rightarrow> Node option \<Rightarrow> nat option \<Rightarrow>
     error + CodegenContext" and
  emitInstrForFuncNode ::
    "CodegenContext \<Rightarrow> int \<Rightarrow> int \<Rightarrow> string \<Rightarrow> (string \<times> int \<times> int) list \<Rightarrow> int \<Rightarrow> Node \<Rightarrow>
     error + CodegenContext"
where
  "emitInstrForNode ctx (PairExpr off len l r) break_dest =
     Inl (Reported False ''Tuple outside of assignment or return statement'' [])"
| "emitInstrForNode ctx (OperExpr off len kind operands) break_dest =
     (case emitNodes ctx operands break_dest of
        Inl e \<Rightarrow> Inl e
      | Inr ctx1 \<Rightarrow> emitInstr ctx1 (exprkind_to_opcode kind) [] off len)"
| "emitInstrForNode ctx (AssExpr off len lop rop) break_dest =
     emitInstrForAssignmentNode ctx off lop rop break_dest"
| "emitInstrForNode ctx (IntExpr off len v) break_dest =
     emitInstr ctx OPCODE_PUSHINT [OPTP_INT v] off len"
| "emitInstrForNode ctx (FloatExpr off len v) break_dest =
     emitInstr ctx OPCODE_PUSHFLT [OPTP_FLOAT v] off len"
| "emitInstrForNode ctx (StringExpr off len v) break_dest =
     emitInstr ctx OPCODE_PUSHSTR [OPTP_STRING v] off len"
| "emitInstrForNode ctx (IdentExpr off len v) break_dest =
     emitInstr ctx OPCODE_PUSHVAR [OPTP_STRING v] off len"
| "emitInstrForNode ctx (ListExpr off len items itemc) break_dest =
     (case emitInstr ctx OPCODE_PUSHLST [OPTP_INT itemc] off len of
        Inl e \<Rightarrow> Inl e
      | Inr ctx1 \<Rightarrow> emitListItems ctx1 items 0 break_dest)"
| "emitInstrForNode ctx (MapExpr off len ks items itemc) break_dest =
     (case emitInstr ctx OPCODE_PUSHMAP [OPTP_INT itemc] off len of
        Inl e \<Rightarrow> Inl e
      | Inr ctx1 \<Rightarrow> emitMapItems ctx1 ks items break_dest)"
| "emitInstrForNode ctx (CallExpr off len func argv argc) break_dest =
     emitInstrForFuncCallNode ctx off len func argv argc break_dest 1"
| "emitInstrForNode ctx (SelectExpr off len set' idx) break_dest =
     (case emitInstrForNode ctx set' break_dest of
        Inl e \<Rightarrow> Inl e
      | Inr ctx1 \<Rightarrow>
          (case emitInstrForNode ctx1 idx break_dest of
             Inl e \<Rightarrow> Inl e
           | Inr ctx2 \<Rightarrow> emitInstr ctx2 OPCODE_SELECT [] off len))"
| "emitInstrForNode ctx (NoneExpr off len) break_dest = emitInstr ctx OPCODE_PUSHNNE [] off len"
| "emitInstrForNode ctx (TrueExpr off len) break_dest = emitInstr ctx OPCODE_PUSHTRU [] off len"
| "emitInstrForNode ctx (FalseExpr off len) break_dest = emitInstr ctx OPCODE_PUSHFLS [] off len"
| "emitInstrForNode ctx (BreakNode off len) break_dest =
     (case break_dest of
        None \<Rightarrow> Inl (Reported False ''Break not inside a loop'' [])
      | Some p \<Rightarrow> emitInstr ctx OPCODE_JUMP [OPTP_PROMISE p] off len)"
| "emitInstrForNode ctx (IfElseNode off len c t f) break_dest =
     emitInstrForIfElseNode ctx off len c t f break_dest"
| "emitInstrForNode ctx (WhileNode off len cond body) break_dest =
     (case newOffsetPromise ctx of
        Inl e \<Rightarrow> Inl e
      | Inr (start_offset, ctx1) \<Rightarrow>
     (case newOffsetPromise ctx1 of
        Inl e \<Rightarrow> Inl e
      | Inr (end_offset, ctx2) \<Rightarrow>
     (case emitInstrForNode (Promise_Resolve start_offset (ExeBuilder_InstrCount ctx2) ctx2)
             cond break_dest of
        Inl e \<Rightarrow> Inl e
      | Inr ctx3 \<Rightarrow>
     (case emitInstr ctx3 OPCODE_JUMPIFNOTANDPOP [OPTP_PROMISE end_offset]
             (node_offset cond) (node_length cond) of
        Inl e \<Rightarrow> Inl e
      | Inr ctx4 \<Rightarrow>
     (case emitInstrForNode ctx4 body (Some end_offset) of
        Inl e \<Rightarrow> Inl e
      | Inr ctx5 \<Rightarrow>
     (case (if is_NODE_EXPR body then emitInstr_POP1 ctx5 (node_offset body) 0 else Inr ctx5) of
        Inl e \<Rightarrow> Inl e
      | Inr ctx6 \<Rightarrow>
     (case emitInstr ctx6 OPCODE_JUMP [OPTP_PROMISE start_offset] off len of
        Inl e \<Rightarrow> Inl e
      | Inr ctx7 \<Rightarrow>
          Inr (Promise_Resolve end_offset (ExeBuilder_InstrCount ctx7) ctx7))))))))"
| "emitInstrForNode ctx (DoWhileNode off len body cond) break_dest =
     (case newOffsetPromise ctx of
        Inl e \<Rightarrow> Inl e
      | Inr (end_offset, ctx1) \<Rightarrow>
     (let start = ExeBuilder_InstrCount ctx1 in
      case emitInstrForNode ctx1 body (Some end_offset) of
        Inl e \<Rightarrow> Inl e
      | Inr ctx2 \<Rightarrow>
     (case (if is_NODE_EXPR body then emitInstr_POP1 ctx2 (node_offset body) 0 else Inr ctx2) of
        Inl e \<Rightarrow> Inl e
      | Inr ctx3 \<Rightarrow>
     (case emitInstrForNode ctx3 cond break_dest of
        Inl e \<Rightarrow> Inl e
      | Inr ctx4 \<Rightarrow>
     (case emitInstr ctx4 OPCODE_JUMPIFANDPOP [OPTP_INT start]
             (node_offset cond) (node_length cond) of
        Inl e \<Rightarrow> Inl e
      | Inr ctx5 \<Rightarrow>
          Inr (Promise_Resolve end_offset (ExeBuilder_InstrCount ctx5) ctx5))))))"
| "emitInstrForNode ctx (CompNode off len stmts) break_dest = emitStatements ctx stmts break_dest"
| "emitInstrForNode ctx (ReturnNode off len v) break_dest =
     (case flattenTupleTree v [] 32 of
        Inl e \<Rightarrow> Inl e
      | Inr tuple \<Rightarrow>
          (case emitNodes ctx tuple break_dest of
             Inl e \<Rightarrow> Inl e
           | Inr ctx1 \<Rightarrow> emitInstr ctx1 OPCODE_RETURN [OPTP_INT (int (length tuple))] off len))"
| "emitInstrForNode ctx (FuncNode off len name argv argc body) break_dest =
     emitInstrForFuncNode ctx off len name argv argc body"

| "emitNodes ctx [] break_dest = Inr ctx"
| "emitNodes ctx (n # ns) break_dest =
     (case emitInstrForNode ctx n break_dest of
        Inl e \<Rightarrow> Inl e
      | Inr ctx1 \<Rightarrow> emitNodes ctx1 ns break_dest)"

| "emitListItems ctx [] i break_dest = Inr ctx"
| "emitListItems ctx (item # items) i break_dest =
     (case emitInstr ctx OPCODE_PUSHINT [OPTP_INT i] (node_offset item) (node_length item) of
        Inl e \<Rightarrow> Inl e
      | Inr ctx1 \<Rightarrow>
     (case emitInstrForNode ctx1 item break_dest of
        Inl e \<Rightarrow> Inl e
      | Inr ctx2 \<Rightarrow>
     (case emitInstr ctx2 OPCODE_INSERT [] (node_offset item) (node_length item) of
        Inl e \<Rightarrow> Inl e
      | Inr ctx3 \<Rightarrow> emitListItems ctx3 items (i + 1) break_dest)))"

| "emitMapItems ctx ks [] break_dest = Inr ctx"
| "emitMapItems ctx [] (item # items) break_dest = Inl AssertionFailure"
| "emitMapItems ctx (key # ks) (item # items) break_dest =
     (case emitInstrForNode ctx key break_dest of
        Inl e \<Rightarrow> Inl e
      | Inr ctx1 \<Rightarrow>
     (case emitInstrForNode ctx1 item break_dest of
        Inl e \<Rightarrow> Inl e
      | Inr ctx2 \<Rightarrow>
     (case emitInstr ctx2 OPCODE_INSERT [] (node_offset item) (node_length item) of
        Inl e \<Rightarrow> Inl e
      | Inr ctx3 \<Rightarrow> emitMapItems ctx3 ks items break_dest)))"

| "emitStatements ctx [] break_dest = Inr ctx"
| "emitStatements ctx (stmt # stmts) break_dest =
     (case emitInstrForNode ctx stmt break_dest of
        Inl e \<Rightarrow> Inl e
      | Inr ctx1 \<Rightarrow>
     (case (if is_NODE_EXPR stmt then emitInstr_POP1 ctx1 (node_offset stmt) 0 else Inr ctx1) of
        Inl e \<Rightarrow> Inl e
      | Inr ctx2 \<Rightarrow> emitStatements ctx2 stmts break_dest))"

| "emitAssignments ctx [] asgn_off break_dest = Inr ctx"
| "emitAssignments ctx (tuple_item # rest) asgn_off break_dest =
     (case (case tuple_item of
              IdentExpr off len name \<Rightarrow> emitInstr_ASS ctx name off len
            | SelectExpr off len set' idx \<Rightarrow>
                (case emitInstrForNode ctx set' break_dest of
                   Inl e \<Rightarrow> Inl e
                 | Inr ctx1 \<Rightarrow>
                     (case emitInstrForNode ctx1 idx break_dest of
                        Inl e \<Rightarrow> Inl e
                      | Inr ctx2 \<Rightarrow> emitInstr ctx2 OPCODE_INSERT2 [] off len))
            | _ \<Rightarrow> Inl (Reported False ''Assigning to something that it can't be assigned to'' [])) of
        Inl e \<Rightarrow> Inl e
      | Inr ctx3 \<Rightarrow>
     (case (if rest \<noteq> [] then emitInstr_POP1 ctx3 asgn_off 0 else Inr ctx3) of
        Inl e \<Rightarrow> Inl e
      | Inr ctx4 \<Rightarrow> emitAssignments ctx4 rest asgn_off break_dest))"

| "emitInstrForFuncCallNode ctx off len func argv argc break_dest returns =
     (case emitNodes ctx argv break_dest of
        Inl e \<Rightarrow> Inl e
      | Inr ctx1 \<Rightarrow>
     (case emitInstrForNode ctx1 func break_dest of
        Inl e \<Rightarrow> Inl e
      | Inr ctx2 \<Rightarrow> emitInstr ctx2 OPCODE_CALL [OPTP_INT argc, OPTP_INT returns] off len))"

| "emitInstrForAssignmentNode ctx asgn_off lop rop break_dest =
     (case flattenTupleTree lop [] 32 of
        Inl e \<Rightarrow> Inl e
      | Inr tuple \<Rightarrow>
          if \<not> 0 < length tuple then Inl AssertionFailure
          else
     (case (if length tuple = 1 then emitInstrForNode ctx rop break_dest
            else (case rop of
                    CallExpr off len func argv argc \<Rightarrow>
                      emitInstrForFuncCallNode ctx off len func argv argc break_dest
                        (int (length tuple))
                  | _ \<Rightarrow> Inl (Reported False ''Assigning to %d variables only 1 value''
                                [int (length tuple)]))) of
        Inl e \<Rightarrow> Inl e
      | Inr ctx1 \<Rightarrow> emitAssignments ctx1 (rev tuple) asgn_off break_dest))"

| "emitInstrForIfElseNode ctx off len cond true_branch None break_dest =
     (case emitInstrForNode ctx cond break_dest of
        Inl e \<Rightarrow> Inl e
      | Inr ctx1 \<Rightarrow>
     (case newOffsetPromise ctx1 of
        Inl e \<Rightarrow> Inl e
      | Inr (done_offset, ctx2) \<Rightarrow>
     (case emitInstr ctx2 OPCODE_JUMPIFNOTANDPOP [OPTP_PROMISE done_offset] off len of
        Inl e \<Rightarrow> Inl e
      | Inr ctx3 \<Rightarrow>
     (case emitInstrForNode ctx3 true_branch break_dest of
        Inl e \<Rightarrow> Inl e
      | Inr ctx4 \<Rightarrow>
     (case (if is_NODE_EXPR true_branch then emitInstr_POP1 ctx4 (node_offset true_branch) 0
            else Inr ctx4) of
        Inl e \<Rightarrow> Inl e
      | Inr ctx5 \<Rightarrow>
          Inr (Promise_Resolve done_offset (ExeBuilder_InstrCount ctx5) ctx5))))))"
| "emitInstrForIfElseNode ctx off len cond true_branch (Some false_branch) break_dest =
     (case emitInstrForNode ctx cond break_dest of
        Inl e \<Rightarrow> Inl e
      | Inr ctx1 \<Rightarrow>
     (case newOffsetPromise ctx1 of
        Inl e \<Rightarrow> Inl e
      | Inr (else_offset, ctx2) \<Rightarrow>
     (case newOffsetPromise ctx2 of
        Inl e \<Rightarrow> Inl e
      | Inr (done_offset, ctx3) \<Rightarrow>
     (case emitInstr ctx3 OPCODE_JUMPIFNOTANDPOP [OPTP_PROMISE else_offset] off len of
        Inl e \<Rightarrow> Inl e
      | Inr ctx4 \<Rightarrow>
     (case emitInstrForNode ctx4 true_branch break_dest of
        Inl e \<Rightarrow> Inl e
      | Inr ctx5 \<Rightarrow>
     (case (if is_NODE_EXPR true_branch then emitInstr_POP ctx5 1 (node_offset true_branch) 0
            else Inr ctx5) of
        Inl e \<Rightarrow> Inl e
      | Inr ctx6 \<Rightarrow>
     (case emitInstr ctx6 OPCODE_JUMP [OPTP_PROMISE done_offset] off len of
        Inl e \<Rightarrow> Inl e
      | Inr ctx7 \<Rightarrow>
     (case emitInstrForNode (Promise_Resolve else_offset (ExeBuilder_InstrCount ctx7) ctx7)
             false_branch break_dest of
        Inl e \<Rightarrow> Inl e
      | Inr ctx8 \<Rightarrow>
     (case (if is_NODE_EXPR false_branch then emitInstr_POP1 ctx8 (node_offset false_branch) 0
            else Inr ctx8) of
        Inl e \<Rightarrow> Inl e
      | Inr ctx9 \<Rightarrow>
          Inr (Promise_Resolve done_offset (ExeBuilder_InstrCount ctx9) ctx9))))))))))"

| "emitInstrForFuncNode ctx off len name argv argc body =
     (case newOffsetPromise ctx of
        Inl e \<Rightarrow> Inl e
      | Inr (func_index, ctx1) \<Rightarrow>
     (case newOffsetPromise ctx1 of
        Inl e \<Rightarrow> Inl e
      | Inr (jump_index, ctx2) \<Rightarrow>
     (case emitInstr ctx2 OPCODE_PUSHFUN [OPTP_PROMISE func_index, OPTP_INT argc] off len of
        Inl e \<Rightarrow> Inl e
      | Inr ctx3 \<Rightarrow>
     (case emitInstr_ASS ctx3 name off len of
        Inl e \<Rightarrow> Inl e
      | Inr ctx4 \<Rightarrow>
     (case emitInstr_POP1 ctx4 off len of
        Inl e \<Rightarrow> Inl e
      | Inr ctx5 \<Rightarrow>
     (case emitInstr ctx5 OPCODE_JUMP [OPTP_PROMISE jump_index] off len of
        Inl e \<Rightarrow> Inl e
      | Inr ctx6 \<Rightarrow>
     (case emitArguments (Promise_Resolve func_index (ExeBuilder_InstrCount ctx6) ctx6) argv of
        Inl e \<Rightarrow> Inl e
      | Inr ctx7 \<Rightarrow>
     (case emitInstrForNode ctx7 body None of
        Inl e \<Rightarrow> Inl e
      | Inr ctx8 \<Rightarrow>
     (case (if is_NODE_EXPR body
            then emitInstr_POP1 ctx8 (node_offset body + node_length body) 0 else Inr ctx8) of
        Inl e \<Rightarrow> Inl e
      | Inr ctx9 \<Rightarrow>
     (case emitInstr ctx9 OPCODE_RETURN [OPTP_INT 0] (node_offset body) 0 of
        Inl e \<Rightarrow> Inl e
      | Inr ctx10 \<Rightarrow>
          Inr (Promise_Resolve jump_index (ExeBuilder_InstrCount ctx10) ctx10)))))))))))"
  by pat_completeness auto
termination
  apply (relation "measure (\<lambda>x. case x of
      Inl (Inl (Inl (ctx, node, bd))) \<Rightarrow> 3 * size node + 2
    | Inl (Inl (Inr (ctx, ns, bd))) \<Rightarrow> 3 * size_list size ns + 1
    | Inl (Inr (Inl (ctx, items, i, bd))) \<Rightarrow> 3 * size_list size items + 1
    | Inl (Inr (Inr (Inl (ctx, ks, items, bd)))) \<Rightarrow>
        3 * (size_list size ks + size_list size items) + 1
    | Inl (Inr (Inr (Inr (ctx, stmts, bd)))) \<Rightarrow> 3 * size_list size stmts + 1
    | Inr (Inl (Inl (ctx, items, off, bd))) \<Rightarrow> 3 * size_list size items
    | Inr (Inl (Inr (ctx, off, len, func, argv, argc, bd, returns))) \<Rightarrow>
        3 * (size func + size_list size argv) + 3
    | Inr (Inr (Inl (ctx, off, lop, rop, bd))) \<Rightarrow> 3 * (size lop + size rop) + 4
    | Inr (Inr (Inr (Inl (ctx, off, len, c, t, f, bd)))) \<Rightarrow>
        3 * (size c + size t + size_option size f) + 3
    | Inr (Inr (Inr (Inr (ctx, off, len, name, argv, argc, body)))) \<Rightarrow> 3 * size body + 3)")
  apply (auto dest!: flattenTupleTree_size simp: size_list_rev)
  done

subsection \<open>\<^verbatim>\<open>compile\<close>\<close>

text \<open>
  Modelled from the spec: the source of \<^verbatim>\<open>ExeBuilder_Finalize\<close> is not at hand. It
  replaces every promise among the operands by the integer the promise was resolved to; a
  promise still unresolved is the internal error \<open>UnresolvedJumpTarget\<close>.
\<close>

fun resolve_operand :: "int option list \<Rightarrow> Operand \<Rightarrow> error + Operand" where
  "resolve_operand ps (OPTP_PROMISE p) =
     (if p < length ps
      then (case ps ! p of None \<Rightarrow> Inl UnresolvedJumpTarget | Some v \<Rightarrow> Inr (OPTP_INT v))
      else Inl UnresolvedJumpTarget)"
| "resolve_operand ps operand = Inr operand"

fun resolve_operands :: "int option list \<Rightarrow> Operand list \<Rightarrow> error + Operand list" where
  "resolve_operands ps [] = Inr []"
| "resolve_operands ps (operand # rest) =
     (case resolve_operand ps operand of
        Inl e \<Rightarrow> Inl e
      | Inr operand' \<Rightarrow>
          (case resolve_operands ps rest of
             Inl e \<Rightarrow> Inl e
           | Inr rest' \<Rightarrow> Inr (operand' # rest')))"

fun resolve_instrs :: "int option list \<Rightarrow> Instr list \<Rightarrow> error + Instr list" where
  "resolve_instrs ps [] = Inr []"
| "resolve_instrs ps (Instr opcode opv off len # rest) =
     (case resolve_operands ps opv of
        Inl e \<Rightarrow> Inl e
      | Inr opv' \<Rightarrow>
          (case resolve_instrs ps rest of
             Inl e \<Rightarrow> Inl e
           | Inr rest' \<Rightarrow> Inr (Instr opcode opv' off len # rest')))"

definition ExeBuilder_Finalize :: "CodegenContext \<Rightarrow> error + Instr list" where
  "ExeBuilder_Finalize ctx =
     (if room ctx = 0 then Inl OOM else resolve_instrs (promises ctx) (code ctx))"

text \<open>The executable: the instructions, and the source that \<^verbatim>\<open>Executable_SetSource\<close> sets.\<close>

record Executable =
  body :: "Instr list"
  source :: string

definition Source_GetSize :: "string \<Rightarrow> int" where
  "Source_GetSize s = int (length s)"

text \<open>
  \<^verbatim>\<open>initCodegenContext(ctx, error, alloc)\<close>: \<open>alloc_given\<close> says whether the caller
  passed an allocator. \<^verbatim>\<open>BPAlloc_Init\<close> failing is reported as \<^verbatim>\<open>"No memory"\<close>;
  \<^verbatim>\<open>ExeBuilder_New\<close> failing returns \<^verbatim>\<open>false\<close> with nothing reported.
\<close>

definition initCodegenContext :: "bool \<Rightarrow> nat \<Rightarrow> error + CodegenContext" where
  "initCodegenContext alloc_given room0 =
     (if \<not> alloc_given \<and> room0 = 0 then Inl (Reported True ''No memory'' [])
      else (let room1 = (if alloc_given then room0 else room0 - 1) in
            if room1 = 0 then Inl Unreported
            else Inr \<lparr>code = [], promises = [], room = room1 - 1\<rparr>))"

text \<open>
  \<^verbatim>\<open>makeExecutableAndFreeCodegenContext(ctx, src)\<close>; when \<^verbatim>\<open>ExeBuilder_Finalize\<close>
  fails it calls \<^verbatim>\<open>okNowJump\<close>, and \<open>Inl e\<close> is the error held at the jump.
\<close>

definition makeExecutableAndFreeCodegenContext ::
  "CodegenContext \<Rightarrow> string \<Rightarrow> error + Executable" where
  "makeExecutableAndFreeCodegenContext ctx s =
     (case ExeBuilder_Finalize ctx of
        Inl e \<Rightarrow> Inl e
      | Inr instrs \<Rightarrow> Inr \<lparr>body = instrs, source = s\<rparr>)"

text \<open>
  \<^verbatim>\<open>compile(ast, alloc, error)\<close>: the walk from the root with no break destination,
  the final \<^verbatim>\<open>RETURN 0\<close>, and the finalization.

  \<^verbatim>\<open>compile\<close> sets the jump environment through
  \<^verbatim>\<open>static bool setOrcatchJump(CodegenContext *ctx) { bool jumped = setjmp(ctx->env); return jumped; }\<close>,
  so the function that called \<^verbatim>\<open>setjmp\<close> has returned when the walk, the final
  \<^verbatim>\<open>emitInstr\<close> or the finalization calls \<^verbatim>\<open>longjmp(ctx->env, 1)\<close>. C leaves such a
  jump undefined: the branch \<^verbatim>\<open>if(jumped) { freeCodegenContext(&ctx); return NULL; }\<close>
  need not be what runs next. Every exit through \<^verbatim>\<open>longjmp\<close> is therefore
  \<open>JumpToReturnedFrame e\<close>, with the error \<open>e\<close> held at the jump. Only the failures
  of \<^verbatim>\<open>initCodegenContext\<close> return \<^verbatim>\<open>NULL\<close> without a jump.
\<close>

definition compile :: "AST \<Rightarrow> bool \<Rightarrow> nat \<Rightarrow> error + Executable" where
  "compile ast alloc_given room0 =
     (case initCodegenContext alloc_given room0 of
        Inl e \<Rightarrow> Inl e
      | Inr ctx \<Rightarrow>
     (case emitInstrForNode ctx (root ast) None of
        Inl e \<Rightarrow> Inl (JumpToReturnedFrame e)
      | Inr ctx1 \<Rightarrow>
     (case emitInstr ctx1 OPCODE_RETURN [OPTP_INT 0] (Source_GetSize (src ast)) 0 of
        Inl e \<Rightarrow> Inl (JumpToReturnedFrame e)
      | Inr ctx2 \<Rightarrow>
     (case makeExecutableAndFreeCodegenContext ctx2 (src ast) of
        Inl e \<Rightarrow> Inl (JumpToReturnedFrame e)
      | Inr exe \<Rightarrow> Inr exe))))"

text \<open>An instruction without its span, as the listings of the specification show it.\<close>

fun listing :: "Instr list \<Rightarrow> (Opcode \<times> Operand list) list" where
  "listing [] = []"
| "listing (Instr opcode opv off len # rest) = (opcode, opv) # listing rest"

section \<open>Sample inputs\<close>

text \<open>
  Concrete inputs on which the model is run. The objects are integers, which hash to
  their value, and lists, which have no hash; two objects compare equal when they are
  the same, and the copy of an object is the object.
\<close>

datatype sample_object = IntObject int | ListObject "int list"

definition sample_caps :: "sample_object capabilities" where
  "sample_caps =
     \<lparr>Object_Hash = (\<lambda>k. case k of IntObject n \<Rightarrow> Inr n | ListObject xs \<Rightarrow> Inl UnhashableKey),
      Object_Compare = (\<lambda>a b. Inr (a = b)),
      Object_Copy = (\<lambda>k. Inr k)\<rparr>"

text \<open>
  The empty map with \<open>n\<close> slots, as the data model describes it: \<open>n\<close> mapper slots,
  all \<open>-1\<close>, and room for \<open>calc_capacity n\<close> entries.
\<close>

definition empty_map :: "int \<Rightarrow> 'o MapObject" where
  "empty_map n =
     \<lparr>mapper_size = n, count = 0, mapper = replicate (nat n) (Some (- 1)),
      keys = new_array (calc_capacity n), vals = new_array (calc_capacity n)\<rparr>"

text \<open>
  \<open>inserted k v r\<close> inserts the integer key \<open>k\<close> with the integer value \<open>v\<close> into
  the map that the run \<open>r\<close> has produced, with every allocation granted; a run that
  has failed stays as it is.
\<close>

definition inserted ::
  "int \<Rightarrow> int \<Rightarrow> ((error + unit) \<times> sample_object MapObject) option \<Rightarrow>
   ((error + unit) \<times> sample_object MapObject) option" where
  "inserted k v r =
     (case r of
        Some (Inr u, m) \<Rightarrow> map_insert sample_caps (True, True, True) m (IntObject k) (IntObject v)
      | failed \<Rightarrow> failed)"

definition selected ::
  "int \<Rightarrow> ((error + unit) \<times> sample_object MapObject) option \<Rightarrow>
   (error + sample_object option) option" where
  "selected k r =
     (case r of
        Some (Inr u, m) \<Rightarrow> map_select sample_caps m (IntObject k)
      | Some (Inl e, m) \<Rightarrow> Some (Inl e)
      | None \<Rightarrow> None)"

definition start :: "((error + unit) \<times> sample_object MapObject) option" where
  "start = Some (Inr (), empty_map 8)"

text \<open>The program \<^verbatim>\<open>a, b = f(x);\<close>: a compound with the one statement.\<close>

definition tuple_assignment :: Node where
  "tuple_assignment =
     AssExpr 0 11 (PairExpr 0 4 (IdentExpr 0 1 ''a'') (IdentExpr 3 1 ''b''))
       (CallExpr 7 4 (IdentExpr 7 1 ''f'') [IdentExpr 9 1 ''x''] 1)"

definition tuple_assignment_program :: AST where
  "tuple_assignment_program =
     \<lparr>root = CompNode 0 12 [tuple_assignment], src = ''a, b = f(x);''\<rparr>"

text \<open>
  The map that five insertions into the empty map produce (keys 3, 4, 5, 2, 6, in this
  order): it is full, so that the next insertion grows it.
\<close>

definition full_map :: "sample_object MapObject" where
  "full_map =
     \<lparr>mapper_size = 8, count = 5,
      mapper = [Some (- 1), Some (- 1), Some 3, Some 0, Some 1, Some 2, Some 4, Some (- 1)],
      keys = [Some (IntObject 3), Some (IntObject 4), Some (IntObject 5), Some (IntObject 2),
              Some (IntObject 6)],
      vals = [Some (IntObject 300), Some (IntObject 400), Some (IntObject 500),
              Some (IntObject 200), Some (IntObject 600)]\<rparr>"

text \<open>The listing of the executable that \<open>compile\<close> returns.\<close>

definition compiled_listing ::
  "AST \<Rightarrow> bool \<Rightarrow> nat \<Rightarrow> error + (Opcode \<times> Operand list) list" where
  "compiled_listing ast alloc_given room0 =
     (case compile ast alloc_given room0 of
        Inl e \<Rightarrow> Inl e
      | Inr exe \<Rightarrow> Inr (listing (body exe)))"

text \<open>
  Three programs with a \<^verbatim>\<open>break\<close>: at the top level, in the body of a loop, and in
  the body of a function that a loop defines.
\<close>

definition break_program :: AST where
  "break_program = \<lparr>root = CompNode 0 6 [BreakNode 0 6], src = ''break;''\<rparr>"

definition loop_break_program :: AST where
  "loop_break_program =
     \<lparr>root = CompNode 0 18 [WhileNode 0 18 (TrueExpr 6 4) (BreakNode 12 6)],
      src = ''while true: break;''\<rparr>"

definition function_break_program :: AST where
  "function_break_program =
     \<lparr>root = CompNode 0 30
        [WhileNode 0 30 (TrueExpr 6 4)
           (FuncNode 12 18 ''f'' [] 0 (CompNode 20 10 [BreakNode 22 6]))],
      src = ''while true: fun f() { break; }''\<rparr>"



text \<open>
  The user error of a \<^verbatim>\<open>break\<close> with no destination, and the breaks of a tree that
  have none: \<open>free_break in_loop n\<close> holds when \<open>n\<close> contains a \<^verbatim>\<open>break\<close> that is not
  in the body of a loop of its own function, where \<open>in_loop\<close> says whether \<open>n\<close> itself
  stands in such a body.
\<close>

definition BreakOutsideLoop :: error where
  "BreakOutsideLoop = Reported False ''Break not inside a loop'' []"


text \<open>
  A chain of four scopes. A scope is a frame of variables, on which the sample
  \<^verbatim>\<open>Object_Select\<close> looks the key up, or an object that cannot be selected from, on
  which it reports an error.
\<close>

definition sample_scope_select ::
  "(string \<times> int) list option Object \<Rightarrow> string \<Rightarrow>
   error + (string \<times> int) list option Object option" where
  "sample_scope_select v key =
     (case v of
        NotClosure (Some frame) \<Rightarrow>
          (case map_of frame key of
             None \<Rightarrow> Inr None
           | Some n \<Rightarrow> Inr (Some (NotClosure (Some [(key, n)]))))
      | other \<Rightarrow> Inl IncomparableKey)"

definition sample_closure :: "(string \<times> int) list option ClosureObject" where
  "sample_closure =
     ClosureObject
       (Some (ClosureObject
         (Some (ClosureObject
           (Some (ClosureObject None (NotClosure (Some [(''w'', 5)]))))
           (NotClosure None)))
         (NotClosure (Some [(''x'', 2)]))))
       (NotClosure (Some [(''z'', 1)]))"

section \<open>Properties of closures\<close>

lemma closure_walk_selected:
  "closure_walk sel key c (Some x) = Inr (Some x)"
proof (cases c)
  case None
  then show ?thesis by simp
next
  case (Some co)
  then show ?thesis by (cases co) simp
qed

lemma closure_walk_scopes:
  "closure_walk sel key (Some c) None =
     (case dropWhile (\<lambda>v. sel v key = Inr None) (scopes c) of
        [] \<Rightarrow> Inr None
      | v # outer \<Rightarrow> sel v key)"
proof (induction c rule: scopes.induct)
  case (1 v)
  show ?case
    by (cases "sel v key") (auto split: option.splits)
next
  case (2 p v)
  show ?case
  proof (cases "sel v key")
    case (Inl e)
    then show ?thesis by simp
  next
    case (Inr s)
    then show ?thesis
      using 2 by (cases s) (auto simp: closure_walk_selected)
  qed
qed

lemma closure_select_dropWhile:
  "closure_select sel self key =
     (case dropWhile (\<lambda>v. sel v key = Inr None) (scopes self) of
        [] \<Rightarrow> Inr None
      | v # outer \<Rightarrow> sel v key)"
  unfolding closure_select_def by (rule closure_walk_scopes)

lemma dropWhile_first:
  "\<forall>u\<in>set inner. P u \<Longrightarrow> \<not> P v \<Longrightarrow> dropWhile P (inner @ v # outer) = v # outer"
  by (induction inner) auto

lemma sample_scopes:
  "scopes sample_closure =
     [NotClosure (Some [(''z'', 1)]), NotClosure (Some [(''x'', 2)]), NotClosure None,
      NotClosure (Some [(''w'', 5)])]"
  by (simp add: sample_closure_def)

text \<open>
  C9. \<^verbatim>\<open>select\<close> on a closure walks the scopes from the innermost outwards. When no
  scope holds the key, the result is \<open>None\<close>. When the scopes before \<open>v\<close> do not hold
  the key and \<open>v\<close> yields a value, that value is the result. When the scopes before
  \<open>v\<close> do not hold the key and the selection from \<open>v\<close> reports an error, the walk
  fails with that error. In both cases the scopes after \<open>v\<close> (\<open>outer\<close>) play no part.
\<close>

theorem closure_select_first_scope:
  "((\<forall>u\<in>set (scopes self). sel u key = Inr None) \<longrightarrow> closure_select sel self key = Inr None)
   \<and> (scopes self = inner @ v # outer \<and> (\<forall>u\<in>set inner. sel u key = Inr None)
        \<and> sel v key = Inr (Some x) \<longrightarrow> closure_select sel self key = Inr (Some x))
   \<and> (scopes self = inner @ v # outer \<and> (\<forall>u\<in>set inner. sel u key = Inr None)
        \<and> sel v key = Inl e \<longrightarrow> closure_select sel self key = Inl e)"
proof (intro conjI impI)
  assume "\<forall>u\<in>set (scopes self). sel u key = Inr None"
  then have h: "dropWhile (\<lambda>v. sel v key = Inr None) (scopes self) = []"
    by simp
  show "closure_select sel self key = Inr None"
    by (simp only: closure_select_dropWhile h list.case)
next
  assume a: "scopes self = inner @ v # outer \<and> (\<forall>u\<in>set inner. sel u key = Inr None)
        \<and> sel v key = Inr (Some x)"
  then have "dropWhile (\<lambda>v. sel v key = Inr None) (scopes self) = v # outer"
    by (simp add: dropWhile_first)
  then show "closure_select sel self key = Inr (Some x)"
    using a by (simp add: closure_select_dropWhile)
next
  assume a: "scopes self = inner @ v # outer \<and> (\<forall>u\<in>set inner. sel u key = Inr None)
        \<and> sel v key = Inl e"
  then have "dropWhile (\<lambda>v. sel v key = Inr None) (scopes self) = v # outer"
    by (simp add: dropWhile_first)
  then show "closure_select sel self key = Inl e"
    using a by (simp add: closure_select_dropWhile)
qed

text \<open>
  On the sample chain: \<^verbatim>\<open>x\<close> is found in the second scope; the lookup of \<^verbatim>\<open>w\<close>
  fails at the third scope, although the fourth holds it; a chain of one scope
  without \<^verbatim>\<open>x\<close> yields \<open>None\<close>.
\<close>

theorem closure_select_first_scope_witness:
  "closure_select sample_scope_select sample_closure ''x'' =
     Inr (Some (NotClosure (Some [(''x'', 2)])))
   \<and> closure_select sample_scope_select sample_closure ''w'' = Inl IncomparableKey
   \<and> closure_select sample_scope_select (ClosureObject None (NotClosure (Some [(''z'', 1)]))) ''x''
       = Inr None"
proof -
  have 1: "closure_select sample_scope_select sample_closure ''x'' =
             Inr (Some (NotClosure (Some [(''x'', 2)])))"
    using closure_select_first_scope
      [of sample_closure sample_scope_select "''x''" "[NotClosure (Some [(''z'', 1)])]"
          "NotClosure (Some [(''x'', 2)])" "[NotClosure None, NotClosure (Some [(''w'', 5)])]"
          "NotClosure (Some [(''x'', 2)])"]
    by (simp add: sample_scopes sample_scope_select_def)
  have 2: "closure_select sample_scope_select sample_closure ''w'' = Inl IncomparableKey"
    using closure_select_first_scope
      [of sample_closure sample_scope_select "''w''"
          "[NotClosure (Some [(''z'', 1)]), NotClosure (Some [(''x'', 2)])]"
          "NotClosure None" "[NotClosure (Some [(''w'', 5)])]" _ IncomparableKey]
    by (simp add: sample_scopes sample_scope_select_def)
  have 3: "closure_select sample_scope_select
             (ClosureObject None (NotClosure (Some [(''z'', 1)]))) ''x'' = Inr None"
    using closure_select_first_scope
      [of "ClosureObject None (NotClosure (Some [(''z'', 1)]))" sample_scope_select "''x''"]
    by (simp add: sample_scope_select_def)
  show ?thesis using 1 2 3 by simp
qed

text \<open>
  C10. When \<^verbatim>\<open>Heap_Malloc\<close> succeeds, \<^verbatim>\<open>Object_NewClosure\<close> fails with the report
  \<^verbatim>\<open>"Object is not a closure"\<close> for a parent that is an object other than a closure;
  for no parent, and for a parent that is a closure, it returns a closure whose
  \<^verbatim>\<open>prev\<close> is the parent and whose \<^verbatim>\<open>vars\<close> is the map it was given.
\<close>

theorem NewClosure_checks_parent:
  "(\<forall>x. parent = Some (NotClosure x) \<longrightarrow>
      Object_NewClosure True parent new_map = Inl (Reported False ''Object is not a closure'' []))
   \<and> (parent = None \<longrightarrow>
      (\<exists>c. Object_NewClosure True parent new_map = Inr c \<and> prev c = None \<and> vars c = new_map))
   \<and> (\<forall>p. parent = Some (IsClosure p) \<longrightarrow>
      (\<exists>c. Object_NewClosure True parent new_map = Inr c \<and> prev c = Some p \<and> vars c = new_map))"
  by auto

theorem NewClosure_checks_parent_witness:
  "Object_NewClosure True (Some (NotClosure (Some [(''x'', 2::int)]))) (NotClosure (Some [])) =
     Inl (Reported False ''Object is not a closure'' [])
   \<and> Object_NewClosure True None (NotClosure (Some [(''x'', 2::int)])) =
     Inr (ClosureObject None (NotClosure (Some [(''x'', 2)])))
   \<and> Object_NewClosure True (Some (IsClosure sample_closure)) (NotClosure (Some [])) =
     Inr (ClosureObject (Some sample_closure) (NotClosure (Some [])))"
  using NewClosure_checks_parent
          [of "Some (NotClosure (Some [(''x'', 2::int)]))" "NotClosure (Some [])"]
        NewClosure_checks_parent [of "None" "NotClosure (Some [(''x'', 2::int)])"]
        NewClosure_checks_parent [of "Some (IsClosure sample_closure)" "NotClosure (Some [])"]
  by (auto simp: sample_closure_def)

section \<open>Properties of maps\<close>

lemmas run_map =
  inserted_def start_def selected_def map_insert_def map_select_def empty_map_def
  calc_capacity_def sample_caps_def insert_loop.simps select_loop.simps load_def store_def
  new_array_def grow_def grow_probe.simps copy_entries.simps fill_mapper.simps rehash.simps
  Heap_RawMalloc_def Error_Report_def held_error_def INT_MAX_def eval_nat_numeral

text \<open>The full sample map is what the five insertions produce.\<close>

lemma five_inserts:
  "inserted 6 600 (inserted 2 200 (inserted 5 500 (inserted 4 400 (inserted 3 300 start)))) =
     Some (Inr (), full_map)"
  by (simp add: run_map full_map_def)

text \<open>
  C1. The code at a failing input. After the insertions of the keys 1 and 0 into the
  empty map, both successful, the key 1 sits in slot 1 as entry 0 and the key 0 in
  slot 0 as entry 1. \<^verbatim>\<open>select\<close> of the key 1 compares it with \<^verbatim>\<open>keys[1]\<close>, the key 0,
  moves on to the empty slot 6 and returns \<open>None\<close>: the inserted value is not found.
  After the single insertion of the key 3, \<^verbatim>\<open>select\<close> of that key reads \<^verbatim>\<open>keys[3]\<close>,
  a cell that was never written.
\<close>

theorem select_misses_inserted_key:
  "inserted 0 200 (inserted 1 100 start) =
     Some (Inr (),
       \<lparr>mapper_size = 8, count = 2,
        mapper = [Some 1, Some 0, Some (- 1), Some (- 1), Some (- 1), Some (- 1), Some (- 1),
                  Some (- 1)],
        keys = [Some (IntObject 1), Some (IntObject 0), None, None, None],
        vals = [Some (IntObject 100), Some (IntObject 200), None, None, None]\<rparr>)
   \<and> selected 1 (inserted 0 200 (inserted 1 100 start)) = Some (Inr None)
   \<and> selected 3 (inserted 3 300 start) = Some (Inl Uninitialised)"
  by (simp add: run_map)

text \<open>
  C2. The code at a failing input. The keys 1 and 2 are inserted, then the key 1
  again. The probe compares the key with \<^verbatim>\<open>keys[1]\<close>, the key 2, moves on to the empty
  slot 6, and appends a third entry: the count becomes 3, the key 1 is stored twice,
  and its first value stays 100.
\<close>

theorem insert_present_key_appends:
  "inserted 1 101 (inserted 2 200 (inserted 1 100 start)) =
     Some (Inr (),
       \<lparr>mapper_size = 8, count = 3,
        mapper = [Some (- 1), Some 0, Some 1, Some (- 1), Some (- 1), Some (- 1), Some 2,
                  Some (- 1)],
        keys = [Some (IntObject 1), Some (IntObject 2), Some (IntObject 1), None, None],
        vals = [Some (IntObject 100), Some (IntObject 200), Some (IntObject 101), None, None]\<rparr>)"
  by (simp add: run_map)

text \<open>
  C3. The code at a failing input. \<^verbatim>\<open>Object_NewMap(0)\<close> chooses 8 mapper slots and
  asks for a mapper of \<^verbatim>\<open>capacity\<close> = 5 cells; the loop that sets the 8 slots to
  \<open>-1\<close> writes past the array.
\<close>

theorem NewMap_mapper_too_short:
  "NewMap_size 8 0 = Some (Inr 8)
   \<and> length (new_array (calc_capacity 8) :: int option list) = 5
   \<and> fill_mapper 0 8 (new_array (calc_capacity 8)) = Inl OutOfBounds
   \<and> (Object_NewMap 0 True (True, True, True) :: (error + sample_object MapObject) option)
       = Some (Inl OutOfBounds)"
  by (simp add: Object_NewMap_def NewMap_size.simps fill_mapper.simps calc_capacity_def
        new_array_def store_def Heap_RawMalloc_def)

text \<open>
  The same holds for every \<^verbatim>\<open>num\<close>. The loop that sizes the mapper ends, with at
  least 8 slots or at a shift that overflows; the capacity is below the number of
  slots, and the loop that sets the slots to \<open>-1\<close> runs past the array of
  \<^verbatim>\<open>capacity\<close> cells: \<^verbatim>\<open>Object_NewMap\<close> returns no map.
\<close>

lemma NewMap_size_returns: "1 \<le> s \<Longrightarrow> \<exists>r. NewMap_size s num = Some r"
proof (induction "nat (INT_MAX - s)" arbitrary: s rule: less_induct)
  case less
  show ?case
  proof (cases "calc_capacity s < num \<and> \<not> INT_MAX < s * 2")
    case False
    then show ?thesis by (subst NewMap_size.simps) auto
  next
    case True
    then have "nat (INT_MAX - s * 2) < nat (INT_MAX - s)"
      using less.prems by simp
    moreover have "1 \<le> s * 2" using less.prems by simp
    ultimately obtain r where "NewMap_size (s * 2) num = Some r"
      using less.hyps by blast
    then show ?thesis using True less.prems by (subst NewMap_size.simps) simp
  qed
qed

lemma NewMap_size_at_least:
  assumes "NewMap_size s num = Some (Inr msize)" and "8 \<le> s"
  shows "8 \<le> msize"
proof -
  have "8 \<le> s \<longrightarrow> (\<forall>n. (Inr msize :: error + int) = Inr n \<longrightarrow> 8 \<le> n)"
  proof (rule NewMap_size.raw_induct
      [where P = "\<lambda>s num y. 8 \<le> s \<longrightarrow> (\<forall>n. y = Inr n \<longrightarrow> 8 \<le> n)", OF _ assms(1)])
    fix f :: "int \<Rightarrow> int \<Rightarrow> (error + int) option"
    fix s num y
    assume ih: "\<And>s num y. f s num = Some y \<Longrightarrow> 8 \<le> s \<longrightarrow> (\<forall>n. y = Inr n \<longrightarrow> 8 \<le> n)"
    assume body: "(if calc_capacity s < num
                   then (if s < 0 \<or> INT_MAX < s * 2 then Some (Inl SignedOverflow)
                         else f (s * 2) num)
                   else Some (Inr s)) = Some y"
    show "8 \<le> s \<longrightarrow> (\<forall>n. y = Inr n \<longrightarrow> 8 \<le> n)"
    proof (cases "calc_capacity s < num")
      case False
      then show ?thesis using body by auto
    next
      case True
      show ?thesis
      proof (cases "s < 0 \<or> INT_MAX < s * 2")
        case over: True
        then have "y = Inl SignedOverflow" using body True by auto
        then show ?thesis by simp
      next
        case False
        then have "f (s * 2) num = Some y" using body True by simp
        from ih [OF this] show ?thesis by simp
      qed
    qed
  qed
  then show ?thesis using assms(2) by simp
qed

lemma fill_mapper_past_end:
  "0 \<le> i \<Longrightarrow> i \<le> int (length a) \<Longrightarrow> int (length a) < n \<Longrightarrow>
     fill_mapper i n a = Inl OutOfBounds"
proof (induction i n a rule: fill_mapper.induct)
  case (1 i n a)
  have lt: "i < n" using "1.prems" by simp
  show ?case
  proof (cases "i < int (length a)")
    case False
    then show ?thesis using lt by (subst fill_mapper.simps) (simp add: store_def)
  next
    case True
    then have s: "store a i (- 1) = Inr (a[nat i := Some (- 1)])"
      using "1.prems"(1) by (simp add: store_def)
    have "fill_mapper (i + 1) n (a[nat i := Some (- 1)]) = Inl OutOfBounds"
      using "1.IH" [OF lt s] "1.prems" True by simp
    then show ?thesis using lt s by (subst fill_mapper.simps) simp
  qed
qed

lemma NewMap_writes_past_mapper:
  "Object_NewMap num True (True, True, True) = Some (Inl OutOfBounds)
   \<or> Object_NewMap num True (True, True, True) = Some (Inl SignedOverflow)"
proof -
  let ?num = "if num < 0 then 0 else num"
  obtain r where sz: "NewMap_size 8 ?num = Some r"
    using NewMap_size_returns [of 8 ?num] by auto
  show ?thesis
  proof (cases r)
    case (Inl e)
    have "e = SignedOverflow"
    proof -
      have "\<forall>e'. (Inl e :: error + int) = Inl e' \<longrightarrow> e' = SignedOverflow"
      proof (rule NewMap_size.raw_induct
          [where P = "\<lambda>s num y. \<forall>e'. y = Inl e' \<longrightarrow> e' = SignedOverflow",
           OF _ sz [unfolded Inl]])
        fix f :: "int \<Rightarrow> int \<Rightarrow> (error + int) option"
        fix s num y
        assume ih: "\<And>s num y. f s num = Some y \<Longrightarrow> \<forall>e'. y = Inl e' \<longrightarrow> e' = SignedOverflow"
        assume body: "(if calc_capacity s < num
                       then (if s < 0 \<or> INT_MAX < s * 2 then Some (Inl SignedOverflow)
                             else f (s * 2) num)
                       else Some (Inr s)) = Some y"
        show "\<forall>e'. y = Inl e' \<longrightarrow> e' = SignedOverflow"
        proof (cases "calc_capacity s < num \<and> \<not> (s < 0 \<or> INT_MAX < s * 2)")
          case True
          then have "f (s * 2) num = Some y" using body by simp
          then show ?thesis by (rule ih)
        next
          case False
          then show ?thesis using body by (auto split: if_splits)
        qed
      qed
      then show ?thesis by simp
    qed
    then show ?thesis using sz Inl by (simp add: Object_NewMap_def Let_def)
  next
    case (Inr msize)
    have "8 \<le> msize" using NewMap_size_at_least [OF sz [unfolded Inr]] by simp
    then have "0 \<le> calc_capacity msize \<and> calc_capacity msize < msize"
      by (simp add: calc_capacity_def) presburger
    then have "fill_mapper 0 msize (new_array (calc_capacity msize) :: int option list)
                 = Inl OutOfBounds"
      by (intro fill_mapper_past_end) (simp_all add: new_array_def)
    then show ?thesis
      using sz Inr by (simp add: Object_NewMap_def Let_def Heap_RawMalloc_def)
  qed
qed

text \<open>
  The shift overflows when \<^verbatim>\<open>num\<close> asks for more than the capacity of a mapper of
  \<open>2 ^ 30\<close> slots.
\<close>

lemma NewMap_size_overflow:
  "NewMap_size 8 715827882 = Some (Inr 1073741824)"
  "NewMap_size 8 715827883 = Some (Inl SignedOverflow)"
  "(Object_NewMap 715827883 True (True, True, True) :: (error + sample_object MapObject) option)
     = Some (Inl SignedOverflow)"
  by (simp_all add: NewMap_size.simps calc_capacity_def INT_MAX_def Object_NewMap_def)

text \<open>
  C4. The code at a failing input. The sample map is full, and the insertion of a
  sixth key calls \<^verbatim>\<open>grow\<close>. When the heap refuses two of the three arrays, or all
  three, the second refusal reports on the structure that holds the report of the
  first: the run stops at the assertion of \<^verbatim>\<open>_Error_Report2\<close>, and \<^verbatim>\<open>insert\<close> does not
  return. The map is as it was.
\<close>

theorem insert_grow_second_failure:
  "count full_map = calc_capacity (mapper_size full_map)
   \<and> grow sample_caps (False, False, True) full_map = Some (Inl AssertionFailure, full_map)
   \<and> map_insert sample_caps (False, False, True) full_map (IntObject 7) (IntObject 700)
       = Some (Inl AssertionFailure, full_map)
   \<and> map_insert sample_caps (True, False, False) full_map (IntObject 7) (IntObject 700)
       = Some (Inl AssertionFailure, full_map)
   \<and> map_insert sample_caps (False, False, False) full_map (IntObject 7) (IntObject 700)
       = Some (Inl AssertionFailure, full_map)"
  by (simp add: map_insert_def grow_def full_map_def calc_capacity_def Heap_RawMalloc_def
        Error_Report_def INT_MAX_def)

text \<open>
  What holds of C4: when exactly one of the three allocations of \<^verbatim>\<open>grow\<close> is refused,
  \<^verbatim>\<open>grow\<close> and \<^verbatim>\<open>insert\<close> fail with the out-of-memory error of the heap and leave the
  map as it was; when more are refused, the run stops at the assertion; and no failure
  of \<^verbatim>\<open>grow\<close> changes the map.
\<close>

lemma insert_grow_one_failure:
  assumes "count m = calc_capacity (mapper_size m)"
      and "0 \<le> mapper_size m" and "mapper_size m * 2 \<le> INT_MAX"
      and "raw_ok = (False, True, True) \<or> raw_ok = (True, False, True)
           \<or> raw_ok = (True, True, False)"
  shows "grow caps raw_ok m = Some (Inl OOM, m)
         \<and> map_insert caps raw_ok m key val = Some (Inl OOM, m)"
  using assms
  by (auto simp: map_insert_def grow_def Let_def Heap_RawMalloc_def Error_Report_def
        held_error_def)

lemma insert_grow_more_failures:
  assumes "count m = calc_capacity (mapper_size m)"
      and "0 \<le> mapper_size m" and "mapper_size m * 2 \<le> INT_MAX"
      and "raw_ok = (False, False, vals_ok) \<or> raw_ok = (mapper_ok, False, False)
           \<or> raw_ok = (False, keys_ok, False)"
  shows "grow caps raw_ok m = Some (Inl AssertionFailure, m)
         \<and> map_insert caps raw_ok m key val = Some (Inl AssertionFailure, m)"
proof -
  have "grow caps raw_ok m = Some (Inl AssertionFailure, m)"
    using assms(2-4)
    by (cases vals_ok; cases mapper_ok; cases keys_ok)
       (auto simp: grow_def Let_def Heap_RawMalloc_def Error_Report_def held_error_def)
  then show ?thesis using assms(1) by (simp add: map_insert_def)
qed

lemma grow_failure_keeps_map:
  assumes "grow caps raw_ok m = Some (Inl e, m')"
  shows "m' = m"
proof -
  obtain a b c where r: "raw_ok = (a, b, c)" by (cases raw_ok) auto
  show ?thesis
    using assms unfolding r grow_def Let_def
    by (simp split: if_splits sum.splits option.splits prod.splits)
qed

text \<open>
  What \<^verbatim>\<open>grow\<close> itself does when it succeeds: the size of the mapper doubles, the
  count stays, and the entries below the count keep their places and contents.
\<close>

lemma store_Inr:
  "store a i x = Inr a' \<Longrightarrow>
     0 \<le> i \<and> i < int (length a) \<and> nat i < length a \<and> a' = a[nat i := Some x]"
  by (auto simp: store_def split: if_splits)

lemma load_Inr:
  "load a i = Inr x \<Longrightarrow> 0 \<le> i \<and> i < int (length a) \<and> a ! nat i = Some x"
  by (auto simp: load_def split: if_splits option.splits)

lemma copy_entries_cells:
  "copy_entries i m ks vs = Inr (ks', vs') \<Longrightarrow> 0 \<le> i \<Longrightarrow>
     length ks' = length ks \<and> length vs' = length vs
     \<and> (\<forall>k. i \<le> k \<and> k < count m \<longrightarrow>
           load ks' k = load (keys m) k \<and> load vs' k = load (vals m) k)
     \<and> (\<forall>k. 0 \<le> k \<and> k < i \<longrightarrow> ks' ! nat k = ks ! nat k \<and> vs' ! nat k = vs ! nat k)"
proof (induction i m ks vs arbitrary: ks' vs' rule: copy_entries.induct)
  case (1 i m ks vs)
  show ?case
  proof (cases "i < count m")
    case False
    then show ?thesis using "1.prems" by (subst (asm) copy_entries.simps) auto
  next
    case True
    from "1.prems"(1) True obtain kv ks1 vv vs1 where
      lk: "load (keys m) i = Inr kv" and sk: "store ks i kv = Inr ks1" and
      lv: "load (vals m) i = Inr vv" and sv: "store vs i vv = Inr vs1" and
      rec: "copy_entries (i + 1) m ks1 vs1 = Inr (ks', vs')"
      by (subst (asm) copy_entries.simps) (auto split: sum.splits)
    have ih: "length ks' = length ks1 \<and> length vs' = length vs1
       \<and> (\<forall>k. i + 1 \<le> k \<and> k < count m \<longrightarrow>
             load ks' k = load (keys m) k \<and> load vs' k = load (vals m) k)
       \<and> (\<forall>k. 0 \<le> k \<and> k < i + 1 \<longrightarrow> ks' ! nat k = ks1 ! nat k \<and> vs' ! nat k = vs1 ! nat k)"
      using "1.IH" [OF True lk sk lv sv rec] "1.prems"(2) by simp
    note s1 = store_Inr [OF sk] store_Inr [OF sv]
    have "ks' ! nat i = ks1 ! nat i \<and> vs' ! nat i = vs1 ! nat i"
      using ih "1.prems"(2) by simp
    moreover have "ks1 ! nat i = Some kv \<and> vs1 ! nat i = Some vv"
      using s1 "1.prems"(2) by simp
    moreover have "i < int (length ks') \<and> i < int (length vs')"
      using ih s1 by simp
    ultimately have here: "load ks' i = load (keys m) i \<and> load vs' i = load (vals m) i"
      using lk lv "1.prems"(2) by (simp add: load_def)
    have below: "\<forall>k. 0 \<le> k \<and> k < i \<longrightarrow> ks' ! nat k = ks ! nat k \<and> vs' ! nat k = vs ! nat k"
      using ih s1 by auto
    have "\<forall>k. i \<le> k \<and> k < count m \<longrightarrow>
           load ks' k = load (keys m) k \<and> load vs' k = load (vals m) k"
    proof (intro allI impI)
      fix k assume k: "i \<le> k \<and> k < count m"
      show "load ks' k = load (keys m) k \<and> load vs' k = load (vals m) k"
      proof (cases "k = i")
        case True then show ?thesis using here by simp
      next
        case False
        then have "i + 1 \<le> k \<and> k < count m" using k by simp
        then show ?thesis using ih by blast
      qed
    qed
    then show ?thesis using ih s1 below by simp
  qed
qed

lemma grow_keeps_entries:
  assumes "grow caps raw_ok m = Some (Inr (), m')"
  shows "mapper_size m' = mapper_size m * 2 \<and> count m' = count m
         \<and> (\<forall>k. 0 \<le> k \<and> k < count m \<longrightarrow>
               load (keys m') k = load (keys m) k \<and> load (vals m') k = load (vals m) k)"
proof -
  obtain a b c where r: "raw_ok = (a, b, c)" by (cases raw_ok) auto
  from assms r obtain ks vs mp' where
    c: "copy_entries 0 m (new_array (calc_capacity (mapper_size m * 2)))
          (new_array (calc_capacity (mapper_size m * 2))) = Inr (ks, vs)"
    and m': "m' = m\<lparr>mapper := mp', mapper_size := mapper_size m * 2, keys := ks, vals := vs\<rparr>"
    by (auto simp: grow_def Let_def split: if_splits sum.splits option.splits prod.splits)
  show ?thesis
    using copy_entries_cells [OF c] m' by simp
qed

text \<open>
  The rest of the invariant holds on the maps that \<^verbatim>\<open>insert\<close> works on: the empty map
  of 8 slots has it, and \<^verbatim>\<open>grow\<close> and \<^verbatim>\<open>insert\<close> keep it whenever they succeed.
\<close>

lemma fill_mapper_length:
  "fill_mapper i n a = Inr a' \<Longrightarrow> length a' = length a"
proof (induction i n a arbitrary: a' rule: fill_mapper.induct)
  case (1 i n a)
  show ?case
  proof (cases "i < n")
    case False
    then show ?thesis using "1.prems" by (subst (asm) fill_mapper.simps) auto
  next
    case True
    from "1.prems"(1) True obtain a1 where
      s: "store a i (- 1) = Inr a1" and rec: "fill_mapper (i + 1) n a1 = Inr a'"
      by (subst (asm) fill_mapper.simps) (auto split: sum.splits)
    show ?thesis using "1.IH" [OF True s rec] store_Inr [OF s] by simp
  qed
qed

lemma fill_mapper_slots:
  "fill_mapper i n a = Inr a' \<Longrightarrow> 0 \<le> i \<Longrightarrow> int (length a) \<le> n \<Longrightarrow>
     list_all (slot_ok c) (take (nat i) a) \<Longrightarrow> list_all (slot_ok c) a'"
proof (induction i n a arbitrary: a' rule: fill_mapper.induct)
  case (1 i n a)
  show ?case
  proof (cases "i < n")
    case False
    then have "a' = a" using "1.prems"(1) by (subst (asm) fill_mapper.simps) auto
    moreover have "take (nat i) a = a" using False "1.prems"(3) by simp
    ultimately show ?thesis using "1.prems"(4) by simp
  next
    case True
    from "1.prems"(1) True obtain a1 where
      s: "store a i (- 1) = Inr a1" and rec: "fill_mapper (i + 1) n a1 = Inr a'"
      by (subst (asm) fill_mapper.simps) (auto split: sum.splits)
    note s1 = store_Inr [OF s]
    have "take (nat (i + 1)) a1 = take (nat i) a @ [Some (- 1)]"
      using s1 "1.prems"(2) by (simp add: nat_add_distrib take_Suc_conv_app_nth)
    moreover have "slot_ok c (Some (- 1))" by (simp add: slot_ok_def)
    ultimately have "list_all (slot_ok c) (take (nat (i + 1)) a1)"
      using "1.prems"(4) by simp
    then show ?thesis
      using "1.IH" [OF True s rec] "1.prems" s1 by simp
  qed
qed

lemma grow_probe_slots:
  assumes "grow_probe mp msk i j pert = Some (Inr mp')"
  shows "length mp' = length mp \<and> set mp' \<subseteq> insert (Some i) (set mp)"
proof -
  have "\<forall>r. (Inr mp' :: error + int option list) = Inr r \<longrightarrow>
          length r = length mp \<and> set r \<subseteq> insert (Some i) (set mp)"
  proof (rule grow_probe.raw_induct
      [where P = "\<lambda>mp msk i j pert y. \<forall>r. y = Inr r \<longrightarrow>
          length r = length mp \<and> set r \<subseteq> insert (Some i) (set mp)", OF _ assms])
    fix f :: "int option list \<Rightarrow> int \<Rightarrow> int \<Rightarrow> int \<Rightarrow> int \<Rightarrow> (error + int option list) option"
    fix mp msk i j pert y
    assume ih: "\<And>mp msk i j pert y. f mp msk i j pert = Some y \<Longrightarrow>
        \<forall>r. y = Inr r \<longrightarrow> length r = length mp \<and> set r \<subseteq> insert (Some i) (set mp)"
    assume body: "(case load mp j of
        Inl e \<Rightarrow> Some (Inl e)
      | Inr k \<Rightarrow>
          if k = - 1 then Some (store mp j i)
          else f mp msk i ((j * 5 + drop_bit 5 pert + 1) AND msk) (drop_bit 5 pert)) = Some y"
    show "\<forall>r. y = Inr r \<longrightarrow> length r = length mp \<and> set r \<subseteq> insert (Some i) (set mp)"
    proof (cases "load mp j")
      case (Inl e)
      then show ?thesis using body by auto
    next
      case (Inr k)
      show ?thesis
      proof (cases "k = - 1")
        case True
        then have y: "y = store mp j i" using body Inr by simp
        show ?thesis
        proof (intro allI impI)
          fix r assume "y = Inr r"
          then have "store mp j i = Inr r" using y by simp
          from store_Inr [OF this]
          show "length r = length mp \<and> set r \<subseteq> insert (Some i) (set mp)"
            using set_update_subset_insert [of mp "nat j" "Some i"] by simp
        qed
      next
        case False
        then have "f mp msk i ((j * 5 + drop_bit 5 pert + 1) AND msk) (drop_bit 5 pert) = Some y"
          using body Inr by simp
        then show ?thesis by (rule ih)
      qed
    qed
  qed
  then show ?thesis by simp
qed

lemma rehash_slots:
  "rehash caps i n nms ks mp = Some (Inr mp') \<Longrightarrow> 0 \<le> i \<Longrightarrow> list_all (slot_ok n) mp \<Longrightarrow>
     length mp' = length mp \<and> list_all (slot_ok n) mp'"
proof (induction caps i n nms ks mp arbitrary: mp' rule: rehash.induct)
  case (1 caps i n nms ks mp)
  show ?case
  proof (cases "i < n")
    case False
    then show ?thesis using "1.prems" by (subst (asm) rehash.simps) auto
  next
    case True
    from "1.prems"(1) True obtain key hash mp1 where
      l: "load ks i = Inr key" and h: "Object_Hash caps key = Inr hash" and
      p: "grow_probe mp (nms - 1) i (hash AND (nms - 1)) hash = Some (Inr mp1)" and
      rec: "rehash caps (i + 1) n nms ks mp1 = Some (Inr mp')"
      by (subst (asm) rehash.simps) (auto simp: Let_def split: sum.splits option.splits)
    note g = grow_probe_slots [OF p]
    have "slot_ok n (Some i)" using True "1.prems"(2) by (simp add: slot_ok_def)
    then have "list_all (slot_ok n) mp1"
      using g "1.prems"(3) by (auto simp: list_all_iff)
    then show ?thesis
      using "1.IH" [OF True l h refl p refl rec] "1.prems"(2) g by simp
  qed
qed


lemma slot_ok_mono: "slot_ok c s \<Longrightarrow> c \<le> c' \<Longrightarrow> slot_ok c' s"
  by (auto simp: slot_ok_def split: option.splits)

lemma list_all_update: "list_all P xs \<Longrightarrow> P x \<Longrightarrow> list_all P (xs[i := x])"
  using set_update_subset_insert [of xs i x] by (auto simp: list_all_iff)

lemma calc_capacity_double:
  "0 \<le> n \<Longrightarrow> 0 \<le> calc_capacity n \<and> calc_capacity n \<le> calc_capacity (n * 2)"
  by (simp add: calc_capacity_def zdiv_mono1 pos_imp_zdiv_nonneg_iff)

lemma grow_keeps_invariant:
  assumes inv: "map_invariant m" and g: "grow caps raw_ok m = Some (Inr (), m')"
  shows "map_invariant m'"
proof -
  let ?n2 = "mapper_size m * 2"
  let ?c2 = "calc_capacity ?n2"
  obtain a b c where r: "raw_ok = (a, b, c)" by (cases raw_ok) auto
  from g r obtain ks vs mp mp' where
    c: "copy_entries 0 m (new_array ?c2) (new_array ?c2) = Inr (ks, vs)"
    and f: "fill_mapper 0 ?n2 (new_array ?n2) = Inr mp"
    and h: "rehash caps 0 (count m) ?n2 ks mp = Some (Inr mp')"
    and m': "m' = m\<lparr>mapper := mp', mapper_size := ?n2, keys := ks, vals := vs\<rparr>"
    by (auto simp: grow_def Let_def split: if_splits sum.splits option.splits prod.splits)
  from inv obtain n where n: "mapper_size m = 2 ^ n" by (auto simp: map_invariant_def)
  then have pos: "0 \<le> mapper_size m" by simp
  have p2: "\<exists>k. ?n2 = 2 ^ k" using n by (intro exI [of _ "Suc n"]) simp
  have lk: "length ks = nat ?c2 \<and> length vs = nat ?c2"
    using copy_entries_cells [OF c] by (simp add: new_array_def)
  have lm: "length mp = nat ?n2"
    using fill_mapper_length [OF f] by (simp add: new_array_def)
  have "list_all (slot_ok (count m)) mp"
    using fill_mapper_slots [OF f, of "count m"] pos by (simp add: new_array_def)
  then have s: "length mp' = length mp \<and> list_all (slot_ok (count m)) mp'"
    using rehash_slots [OF h] by simp
  have cnt: "0 \<le> count m \<and> count m \<le> ?c2"
    using inv calc_capacity_double [OF pos] by (simp add: map_invariant_def)
  show ?thesis
    unfolding map_invariant_def using m' p2 lk lm s cnt by simp
qed

lemma insert_loop_keeps_invariant:
  assumes run: "insert_loop caps m key val msk i pert = Some (Inr (), m')"
      and inv: "map_invariant m"
  shows "map_invariant m'"
proof -
  have "map_invariant m \<longrightarrow>
          (\<forall>r. ((Inr (), m') :: (error + unit) \<times> 'a MapObject) = (Inr (), r) \<longrightarrow> map_invariant r)"
  proof (rule insert_loop.raw_induct
      [where P = "\<lambda>caps m key val msk i pert y. map_invariant m \<longrightarrow>
          (\<forall>r. y = (Inr (), r) \<longrightarrow> map_invariant r)", OF _ run])
    fix f :: "'a capabilities \<Rightarrow> 'a MapObject \<Rightarrow> 'a \<Rightarrow> 'a \<Rightarrow> int \<Rightarrow> int \<Rightarrow> int \<Rightarrow>
              ((error + unit) \<times> 'a MapObject) option"
    fix caps m key val msk i pert y
    assume ih: "\<And>caps m key val msk i pert y. f caps m key val msk i pert = Some y \<Longrightarrow>
        map_invariant m \<longrightarrow> (\<forall>r. y = (Inr (), r) \<longrightarrow> map_invariant r)"
    assume body: "(case load (mapper m) i of
        Inl e \<Rightarrow> Some (Inl e, m)
      | Inr k \<Rightarrow>
          if k = - 1
          then (case Object_Copy caps key of
                  Inl e \<Rightarrow> Some (Inl e, m)
                | Inr key_copy \<Rightarrow>
                    (case store (mapper m) i (count m) of
                       Inl e \<Rightarrow> Some (Inl e, m)
                     | Inr mp \<Rightarrow>
                         (case store (keys m) (count m) key_copy of
                            Inl e \<Rightarrow> Some (Inl e, m\<lparr>mapper := mp\<rparr>)
                          | Inr ks \<Rightarrow>
                              (case store (vals m) (count m) val of
                                 Inl e \<Rightarrow> Some (Inl e, m\<lparr>mapper := mp, keys := ks\<rparr>)
                               | Inr vs \<Rightarrow>
                                   Some (Inr (), m\<lparr>mapper := mp, keys := ks, vals := vs,
                                                      count := count m + 1\<rparr>)))))
          else if \<not> 0 \<le> k then Some (Inl AssertionFailure, m)
          else (case load (keys m) i of
                  Inl e \<Rightarrow> Some (Inl e, m)
                | Inr stored \<Rightarrow>
                    (case Object_Compare caps key stored of
                       Inl e \<Rightarrow> Some (Inl e, m)
                     | Inr equal \<Rightarrow>
                         if equal
                         then (case store (vals m) i val of
                                 Inl e \<Rightarrow> Some (Inl e, m)
                               | Inr vs \<Rightarrow> Some (Inr (), m\<lparr>vals := vs\<rparr>))
                         else f caps m key val msk
                                ((i * 5 + drop_bit 5 pert + 1) AND msk) (drop_bit 5 pert)))) = Some y"
    show "map_invariant m \<longrightarrow> (\<forall>r. y = (Inr (), r) \<longrightarrow> map_invariant r)"
    proof (intro impI allI)
      fix r assume inv: "map_invariant m" and y: "y = (Inr (), r)"
      show "map_invariant r"
      proof (cases "load (mapper m) i")
        case (Inl e)
        then show ?thesis using body y by simp
      next
        case (Inr k)
        show ?thesis
        proof (cases "k = - 1")
          case True
          from body Inr True y obtain key_copy mp ks vs where
            append: "store (mapper m) i (count m) = Inr mp"
              "store (keys m) (count m) key_copy = Inr ks"
              "store (vals m) (count m) val = Inr vs"
              "r = m\<lparr>mapper := mp, keys := ks, vals := vs, count := count m + 1\<rparr>"
            by (auto split: sum.splits)
          note sm = store_Inr [OF append(1)] and sk = store_Inr [OF append(2)]
            and sv = store_Inr [OF append(3)]
          have "count m < calc_capacity (mapper_size m)"
            using sk inv by (simp add: map_invariant_def)
          moreover have "list_all (slot_ok (count m + 1)) mp"
          proof -
            have "list_all (slot_ok (count m + 1)) (mapper m)"
              using inv by (auto simp: map_invariant_def list_all_iff intro: slot_ok_mono)
            moreover have "slot_ok (count m + 1) (Some (count m))"
              using inv by (simp add: slot_ok_def map_invariant_def)
            ultimately show ?thesis using sm by (simp add: list_all_update)
          qed
          ultimately show ?thesis
            using inv sm sk sv append(4) by (simp add: map_invariant_def)
        next
          case False
          show ?thesis
          proof (cases "0 \<le> k")
            case neg: False
            then show ?thesis using body Inr False y by simp
          next
            case pos: True
            from body Inr False pos obtain stored equal where
              "load (keys m) i = Inr stored" "Object_Compare caps key stored = Inr equal"
              and rest: "(if equal
                 then (case store (vals m) i val of
                         Inl e \<Rightarrow> Some (Inl e, m)
                       | Inr vs \<Rightarrow> Some (Inr (), m\<lparr>vals := vs\<rparr>))
                 else f caps m key val msk
                        ((i * 5 + drop_bit 5 pert + 1) AND msk) (drop_bit 5 pert)) = Some y"
              using y by (auto split: sum.splits)
            show ?thesis
            proof (cases equal)
              case True
              from rest True y obtain vs where
                overwrite: "store (vals m) i val = Inr vs" "r = m\<lparr>vals := vs\<rparr>"
                by (auto split: sum.splits)
              then show ?thesis
                using inv store_Inr [OF overwrite(1)] by (simp add: map_invariant_def)
            next
              case False
              then have "f caps m key val msk ((i * 5 + drop_bit 5 pert + 1) AND msk)
                           (drop_bit 5 pert) = Some y"
                using rest by simp
              from ih [OF this] inv y show ?thesis by simp
            qed
          qed
        qed
      qed
    qed
  qed
  then show ?thesis using inv by simp
qed

lemma insert_keeps_invariant:
  assumes "map_invariant m" and "map_insert caps raw_ok m key val = Some (Inr (), m')"
  shows "map_invariant m'"
proof -
  from assms(2) obtain m1 h where
    g: "(if count m = calc_capacity (mapper_size m) then grow caps raw_ok m
         else Some (Inr (), m)) = Some (Inr (), m1)"
    and l: "insert_loop caps m1 key val (mapper_size m1 - 1) (h AND (mapper_size m1 - 1)) h
              = Some (Inr (), m')"
    by (auto simp: map_insert_def Let_def split: option.splits sum.splits prod.splits)
  have "map_invariant m1"
    using g assms(1) grow_keeps_invariant [of m caps raw_ok m1] by (auto split: if_splits)
  then show ?thesis
    using insert_loop_keeps_invariant [OF l] by simp
qed

lemma empty_map_invariant: "map_invariant (empty_map 8)"
proof -
  have "(8::int) = 2 ^ 3" by simp
  then have "\<exists>n. (8::int) = 2 ^ n" by (rule exI)
  then show ?thesis
    by (simp add: map_invariant_def empty_map_def calc_capacity_def new_array_def slot_ok_def
        eval_nat_numeral)
qed

text \<open>
  C5. The code at a failing input. In the full sample map, \<^verbatim>\<open>select\<close> of the key 2
  returns its value 200. \<^verbatim>\<open>grow\<close> succeeds: the mapper has 16 slots and the five
  entries keep their places. In the grown map, \<^verbatim>\<open>select\<close> of the key 2 returns
  \<open>None\<close>, also when the growth is the one that the insertion of a sixth key starts.
\<close>

theorem select_lost_after_grow:
  "map_select sample_caps full_map (IntObject 2) = Some (Inr (Some (IntObject 200)))
   \<and> grow sample_caps (True, True, True) full_map =
       Some (Inr (),
         \<lparr>mapper_size = 16, count = 5,
          mapper = [Some (- 1), Some (- 1), Some 3, Some 0, Some 1, Some 2, Some 4, Some (- 1),
                    Some (- 1), Some (- 1), Some (- 1), Some (- 1), Some (- 1), Some (- 1),
                    Some (- 1), Some (- 1)],
          keys = [Some (IntObject 3), Some (IntObject 4), Some (IntObject 5), Some (IntObject 2),
                  Some (IntObject 6), None, None, None, None, None],
          vals = [Some (IntObject 300), Some (IntObject 400), Some (IntObject 500),
                  Some (IntObject 200), Some (IntObject 600), None, None, None, None, None]\<rparr>)
   \<and> selected 2 (grow sample_caps (True, True, True) full_map) = Some (Inr None)
   \<and> selected 2 (inserted 7 700 (Some (Inr (), full_map))) = Some (Inr None)"
  by (simp add: run_map full_map_def)

text \<open>
  \<^verbatim>\<open>select\<close> hashes the key before it reads the map: the error of \<^verbatim>\<open>Object_Hash\<close> is
  the result, whatever the map is.
\<close>

lemma select_hashes_first:
  "Object_Hash caps key = Inl e \<Longrightarrow> map_select caps m key = Some (Inl e)"
  by (simp add: map_select_def)

text \<open>
  C6, as the claim states it, fails: \<^verbatim>\<open>select\<close> on an empty map, with a key that
  has no hash, fails with the error of \<^verbatim>\<open>Object_Hash\<close>. This holds for the empty map
  of 8 slots, the smallest size that \<^verbatim>\<open>Object_NewMap\<close> chooses, and for an empty map
  of one slot, whose capacity is 0.
\<close>

theorem select_empty_hashes_first_counterexample:
  "map_select sample_caps (empty_map 8) (ListObject []) = Some (Inl UnhashableKey)
   \<and> calc_capacity (mapper_size (empty_map 1 :: sample_object MapObject)) = 0
   \<and> map_select sample_caps (empty_map 1) (ListObject []) = Some (Inl UnhashableKey)"
  by (simp add: run_map)

lemma probe_index_in_range:
  fixes h n :: int
  assumes "0 < n"
  shows "0 \<le> h AND (n - 1) \<and> h AND (n - 1) < n"
proof -
  have "0 \<le> n - 1" using assms by simp
  then have "0 \<le> h AND (n - 1)" and "h AND (n - 1) \<le> n - 1"
    by (simp_all add: AND_upper2)
  then show ?thesis by simp
qed

text \<open>
  C6, amended. \<^verbatim>\<open>select\<close> hashes the key before it looks at the map. On an empty
  map (every slot of the mapper is \<open>-1\<close>) it fails with the error of \<^verbatim>\<open>Object_Hash\<close>
  when the key has no hash, and returns \<open>None\<close> when the key has one.
\<close>

theorem select_empty_map:
  assumes "0 < mapper_size m"
      and "length (mapper m) = nat (mapper_size m)"
      and "\<forall>s\<in>set (mapper m). s = Some (- 1)"
  shows "map_select caps m key =
           (case Object_Hash caps key of
              Inl e \<Rightarrow> Some (Inl e)
            | Inr h \<Rightarrow> Some (Inr None))"
proof (cases "Object_Hash caps key")
  case (Inl e)
  then show ?thesis by (simp add: map_select_def)
next
  case (Inr h)
  let ?i = "h AND (mapper_size m - 1)"
  have r: "0 \<le> ?i \<and> ?i < mapper_size m"
    using assms(1) by (rule probe_index_in_range)
  have "nat ?i < nat (mapper_size m)"
    unfolding zless_nat_conj using r assms(1) by blast
  then have "nat ?i < length (mapper m)"
    by (simp only: assms(2))
  then have "mapper m ! nat ?i \<in> set (mapper m)"
    by (rule nth_mem)
  then have "mapper m ! nat ?i = Some (- 1)"
    using assms(3) by blast
  moreover have "?i < int (length (mapper m))"
    using r assms(1) by (simp only: assms(2)) simp
  ultimately have "load (mapper m) ?i = Inr (- 1)"
    using r by (simp add: load_def del: and_nonnegative_int_iff)
  then show ?thesis
    using Inr by (simp add: map_select_def select_loop.simps)
qed

theorem select_empty_map_witness:
  "0 < mapper_size (empty_map 8 :: sample_object MapObject)
   \<and> map_select sample_caps (empty_map 8) (IntObject 3) = Some (Inr None)
   \<and> map_select sample_caps (empty_map 8) (ListObject [1]) = Some (Inl UnhashableKey)"
proof -
  have a: "0 < mapper_size (empty_map 8 :: sample_object MapObject)"
    by (simp add: empty_map_def)
  have b: "length (mapper (empty_map 8 :: sample_object MapObject)) =
             nat (mapper_size (empty_map 8 :: sample_object MapObject))"
    by (simp add: empty_map_def)
  have c: "\<forall>s\<in>set (mapper (empty_map 8 :: sample_object MapObject)). s = Some (- 1)"
    by (simp add: empty_map_def)
  show ?thesis
    using a select_empty_map [OF a b c, of sample_caps "IntObject 3"]
          select_empty_map [OF a b c, of sample_caps "ListObject [1]"]
    by (simp add: sample_caps_def)
qed

section \<open>Properties of the code generator\<close>

lemmas run_compile =
  compile_def initCodegenContext_def emitInstr_def emitInstr_ASS_def emitInstr_POP1_def
  emitInstr_POP_def makeExecutableAndFreeCodegenContext_def ExeBuilder_Finalize_def
  Source_GetSize_def newOffsetPromise_def Promise_Resolve_def ExeBuilder_InstrCount_def
  compiled_listing_def

text \<open>
  C7, as the claim states it, fails: the listing of the program \<^verbatim>\<open>a, b = f(x);\<close> is
  not the sequence of seven instructions.
\<close>

theorem tuple_assignment_listing_counterexample:
  "compiled_listing tuple_assignment_program True 100 \<noteq>
     Inr [(OPCODE_PUSHVAR, [OPTP_STRING ''x'']), (OPCODE_PUSHVAR, [OPTP_STRING ''f'']),
          (OPCODE_CALL, [OPTP_INT 1, OPTP_INT 2]), (OPCODE_ASS, [OPTP_STRING ''b'']),
          (OPCODE_POP, [OPTP_INT 1]), (OPCODE_ASS, [OPTP_STRING ''a'']),
          (OPCODE_RETURN, [OPTP_INT 0])]"
  by (simp add: run_compile tuple_assignment_program_def tuple_assignment_def)

text \<open>
  C7, amended. With memory for its eleven requests, the assignment
  \<^verbatim>\<open>a, b = f(x)\<close> lowers to \<^verbatim>\<open>PUSHVAR "x"; PUSHVAR "f"; CALL 1,2; ASS "b"; POP 1; ASS "a"\<close>:
  the targets are stored in reverse order, with a \<^verbatim>\<open>POP 1\<close> between two stores and
  none after the last. The program, a compound with this one statement, compiles to
  these instructions, the \<^verbatim>\<open>POP 1\<close> with which a compound discards the value of an
  expression statement, and \<^verbatim>\<open>RETURN 0\<close>. The spans of the nodes are arbitrary.
\<close>

theorem compile_tuple_assignment:
  assumes "11 \<le> room0"
  shows "emitInstrForNode \<lparr>code = [], promises = [], room = room0\<rparr>
           (AssExpr o1 l1 (PairExpr o2 l2 (IdentExpr o3 l3 ''a'') (IdentExpr o4 l4 ''b''))
              (CallExpr o5 l5 (IdentExpr o6 l6 ''f'') [IdentExpr o7 l7 ''x''] 1)) None =
         Inr \<lparr>code = [Instr OPCODE_PUSHVAR [OPTP_STRING ''x''] o7 l7,
                      Instr OPCODE_PUSHVAR [OPTP_STRING ''f''] o6 l6,
                      Instr OPCODE_CALL [OPTP_INT 1, OPTP_INT 2] o5 l5,
                      Instr OPCODE_ASS [OPTP_STRING ''b''] o4 l4,
                      Instr OPCODE_POP [OPTP_INT 1] o1 0,
                      Instr OPCODE_ASS [OPTP_STRING ''a''] o3 l3],
              promises = [], room = room0 - 6\<rparr>
       \<and> compiled_listing
           \<lparr>root = CompNode o0 l0
              [AssExpr o1 l1 (PairExpr o2 l2 (IdentExpr o3 l3 ''a'') (IdentExpr o4 l4 ''b''))
                 (CallExpr o5 l5 (IdentExpr o6 l6 ''f'') [IdentExpr o7 l7 ''x''] 1)],
            src = s\<rparr> alloc_given room0 =
         Inr [(OPCODE_PUSHVAR, [OPTP_STRING ''x'']), (OPCODE_PUSHVAR, [OPTP_STRING ''f'']),
              (OPCODE_CALL, [OPTP_INT 1, OPTP_INT 2]), (OPCODE_ASS, [OPTP_STRING ''b'']),
              (OPCODE_POP, [OPTP_INT 1]), (OPCODE_ASS, [OPTP_STRING ''a'']),
              (OPCODE_POP, [OPTP_INT 1]), (OPCODE_RETURN, [OPTP_INT 0])]"
  using assms by (simp add: run_compile)

theorem compile_tuple_assignment_witness:
  "(11::nat) \<le> 11
   \<and> compiled_listing tuple_assignment_program False 11 =
         Inr [(OPCODE_PUSHVAR, [OPTP_STRING ''x'']), (OPCODE_PUSHVAR, [OPTP_STRING ''f'']),
              (OPCODE_CALL, [OPTP_INT 1, OPTP_INT 2]), (OPCODE_ASS, [OPTP_STRING ''b'']),
              (OPCODE_POP, [OPTP_INT 1]), (OPCODE_ASS, [OPTP_STRING ''a'']),
              (OPCODE_POP, [OPTP_INT 1]), (OPCODE_RETURN, [OPTP_INT 0])]"
proof -
  have h: "(11::nat) \<le> 11" by simp
  show ?thesis
    using h compile_tuple_assignment
      [OF h, of 0 11 0 4 0 1 3 1 7 4 7 1 9 1 0 12 "''a, b = f(x);''" False]
    by (simp add: tuple_assignment_program_def tuple_assignment_def)
qed

text \<open>
  The sequence of seven instructions is what \<open>compile\<close> returns for a tree whose root
  is the assignment itself, with no compound around it.
\<close>

lemma compile_bare_assignment:
  "compiled_listing \<lparr>root = tuple_assignment, src = ''a, b = f(x);''\<rparr> True 100 =
     Inr [(OPCODE_PUSHVAR, [OPTP_STRING ''x'']), (OPCODE_PUSHVAR, [OPTP_STRING ''f'']),
          (OPCODE_CALL, [OPTP_INT 1, OPTP_INT 2]), (OPCODE_ASS, [OPTP_STRING ''b'']),
          (OPCODE_POP, [OPTP_INT 1]), (OPCODE_ASS, [OPTP_STRING ''a'']),
          (OPCODE_RETURN, [OPTP_INT 0])]"
  by (simp add: run_compile tuple_assignment_def)



lemma emitInstr_not_break [simp]:
  "emitInstr ctx opc opv off len \<noteq> Inl BreakOutsideLoop"
  "emitInstr_POP1 ctx off len \<noteq> Inl BreakOutsideLoop"
  "emitInstr_POP ctx n off len \<noteq> Inl BreakOutsideLoop"
  "emitInstr_ASS ctx name off len \<noteq> Inl BreakOutsideLoop"
  "newOffsetPromise ctx \<noteq> Inl BreakOutsideLoop"
  by (auto simp: emitInstr_def emitInstr_POP1_def emitInstr_POP_def emitInstr_ASS_def
        newOffsetPromise_def BreakOutsideLoop_def)

lemma emitArguments_not_break [simp]: "emitArguments ctx args \<noteq> Inl BreakOutsideLoop"
  by (induction ctx args rule: emitArguments.induct) (auto split: sum.splits)



lemma other_errors_not_break [simp]:
  "AssertionFailure \<noteq> BreakOutsideLoop"
  "Reported False ''Assigning to something that it can't be assigned to'' [] \<noteq> BreakOutsideLoop"
  "Reported False ''Assigning to %d variables only 1 value'' args \<noteq> BreakOutsideLoop"
  "Reported False ''Tuple outside of assignment or return statement'' [] \<noteq> BreakOutsideLoop"
  by (simp_all add: BreakOutsideLoop_def)




lemma optional_pop_not_break [simp]:
  "(if c then emitInstr_POP1 x off len else Inr x) \<noteq> Inl BreakOutsideLoop"
  "(if c then emitInstr_POP x n off len else Inr x) \<noteq> Inl BreakOutsideLoop"
  by auto

















text \<open>
  Where the destination comes from, on more samples: the top level has none; the body
  of a loop has the promise of the end of the loop, which the finalization replaces by
  the index after the loop; the body of a function has none, also inside a loop.
\<close>

lemma break_programs:
  "compile break_program True 100 = Inl (JumpToReturnedFrame BreakOutsideLoop)"
  "compiled_listing loop_break_program True 100 =
     Inr [(OPCODE_PUSHTRU, []), (OPCODE_JUMPIFNOTANDPOP, [OPTP_INT 4]),
          (OPCODE_JUMP, [OPTP_INT 4]), (OPCODE_JUMP, [OPTP_INT 0]),
          (OPCODE_RETURN, [OPTP_INT 0])]"
  "compile function_break_program True 100 = Inl (JumpToReturnedFrame BreakOutsideLoop)"
  by (simp_all add: run_compile break_program_def loop_break_program_def
        function_break_program_def BreakOutsideLoop_def)

end
